theory Spec2Isabelle
  imports Main
begin

section \<open>Lowering of blocked-layout tensors to per-lane code (TritonGPUToLLVM.cpp)\<close>

text \<open>
  A shallow embedding of the index algebra, the blocked layout, the per-lane index
  enumeration, the struct helpers, the broadcast and load lowerings and the type
  converter of \<^verbatim>\<open>lib/Conversion/TritonGPUToLLVM/TritonGPUToLLVM.cpp\<close>.

  Conventions of the embedding.
  \<^item> The integers of the source are natural numbers or integers with the arithmetic
    of their machine type written out where the source computes in that type:
    \<open>to_unsigned\<close> reduces modulo \<open>2^32\<close> after an \<^verbatim>\<open>unsigned\<close> multiplication or
    addition, \<open>narrow_to_int\<close> converts to \<^verbatim>\<open>int\<close>. This is done in \<open>getElemsPerThread\<close>,
    in the \<^verbatim>\<open>unsigned\<close> instance of the index algebra, in the widths of the load and in
    \<open>extractNumWarps\<close>. The per-lane element mapping and the broadcast are modelled on
    values that do not overflow. Shapes are those of static tensor types and are
    not negative.
  \<^item> What the source cannot survive is a value of type \<open>error\<close>: a failed
    \<^verbatim>\<open>assert\<close>, an \<^verbatim>\<open>ArrayRef\<close>/\<^verbatim>\<open>SmallVector\<close> subscript out of range (asserted by
    \<^verbatim>\<open>operator[]\<close>), an integer division by zero, a use of a null handle, and
    \<^verbatim>\<open>llvm::report_fatal_error\<close>.
  \<^item> A \<^verbatim>\<open>for\<close> loop over \<open>0 .. n-1\<close> is \<open>efold\<close> (a loop with a state) or \<open>emap\<close>
    (a loop that fills slot \<open>i\<close> of a vector) over \<open>[0..<n]\<close>; both stop at the first
    error.
\<close>

subsection \<open>Errors and loops\<close>

datatype error =
    FatalError string
  | AssertionFailed
  | IndexOutOfBounds
  | DivisionByZero
  | NullValue

definition ebind :: "error + 'a \<Rightarrow> ('a \<Rightarrow> error + 'b) \<Rightarrow> error + 'b" where
  "ebind m f = (case m of Inl e \<Rightarrow> Inl e | Inr x \<Rightarrow> f x)"

fun efold :: "('a \<Rightarrow> 's \<Rightarrow> error + 's) \<Rightarrow> 'a list \<Rightarrow> 's \<Rightarrow> error + 's" where
  "efold f [] s = Inr s"
| "efold f (x # xs) s = (case f x s of Inl e \<Rightarrow> Inl e | Inr s' \<Rightarrow> efold f xs s')"

fun emap :: "('a \<Rightarrow> error + 'b) \<Rightarrow> 'a list \<Rightarrow> error + 'b list" where
  "emap f [] = Inr []"
| "emap f (x # xs) =
     (case f x of Inl e \<Rightarrow> Inl e
      | Inr y \<Rightarrow> (case emap f xs of Inl e \<Rightarrow> Inl e | Inr ys \<Rightarrow> Inr (y # ys)))"

text \<open>\<^verbatim>\<open>xs[i]\<close> on an \<^verbatim>\<open>ArrayRef\<close> or a \<^verbatim>\<open>SmallVector\<close>.\<close>

definition at_index :: "'a list \<Rightarrow> nat \<Rightarrow> error + 'a" where
  "at_index xs i = (if i < length xs then Inr (xs ! i) else Inl IndexOutOfBounds)"

text \<open>\<^verbatim>\<open>xs[i] = v\<close> on a \<^verbatim>\<open>SmallVector\<close>.\<close>

definition set_index :: "'a list \<Rightarrow> nat \<Rightarrow> 'a \<Rightarrow> error + 'a list" where
  "set_index xs i v = (if i < length xs then Inr (xs[i := v]) else Inl IndexOutOfBounds)"

text \<open>\<^verbatim>\<open>a / b\<close> and \<^verbatim>\<open>a % b\<close> on non-negative integers.\<close>

definition udiv :: "nat \<Rightarrow> nat \<Rightarrow> error + nat" where
  "udiv a b = (if b = 0 then Inl DivisionByZero else Inr (a div b))"

definition urem :: "nat \<Rightarrow> nat \<Rightarrow> error + nat" where
  "urem a b = (if b = 0 then Inl DivisionByZero else Inr (a mod b))"

text \<open>
  The value that an \<^verbatim>\<open>unsigned\<close> (32 bits) keeps of a non-negative integer: arithmetic
  on \<^verbatim>\<open>unsigned\<close> wraps around modulo \<open>2^32\<close>.
\<close>

definition to_unsigned :: "nat \<Rightarrow> nat" where
  "to_unsigned x = x mod 2 ^ 32"

subsection \<open>Index algebra\<close>

text \<open>
  \<^verbatim>\<open>acc_mul = 1; for (i = 1; i < rank; ++i) acc_mul *= shape[i];\<close>
\<close>

definition acc_mul_init :: "nat list \<Rightarrow> nat" where
  "acc_mul_init shape = fold (\<lambda>s acc. acc * s) (drop 1 shape) 1"

text \<open>
  The second loop of \<^verbatim>\<open>getMultiDimIndex\<close>, as a recursion on the part of the shape
  from position \<open>i\<close> on: the head of that list is \<open>shape[i]\<close>, the next element, if
  there is one (\<open>i \<noteq> rank - 1\<close>), is \<open>shape[i + 1]\<close>.
\<close>

fun getMultiDimIndex_loop :: "nat \<Rightarrow> nat \<Rightarrow> nat list \<Rightarrow> error + nat list" where
  "getMultiDimIndex_loop linear_remain acc_mul [] = Inr []"
| "getMultiDimIndex_loop linear_remain acc_mul [s] =
     (if acc_mul = 0 then Inl DivisionByZero else Inr [linear_remain div acc_mul])"
| "getMultiDimIndex_loop linear_remain acc_mul (s # s' # ss) =
     (if acc_mul = 0 then Inl DivisionByZero
      else if s' = 0 then Inl DivisionByZero
      else (case getMultiDimIndex_loop (linear_remain mod acc_mul) (acc_mul div s') (s' # ss) of
              Inl e \<Rightarrow> Inl e
            | Inr rest \<Rightarrow> Inr (linear_remain div acc_mul # rest)))"

definition getMultiDimIndex :: "nat \<Rightarrow> nat list \<Rightarrow> error + nat list" where
  "getMultiDimIndex linear_index shape =
     getMultiDimIndex_loop linear_index (acc_mul_init shape) shape"

text \<open>
  The second loop of \<^verbatim>\<open>getLinearIndex\<close>, on the index and the shape from position
  \<open>i\<close> on. The two have the same length by the assertion of \<open>getLinearIndex\<close>.
\<close>

fun getLinearIndex_loop :: "nat \<Rightarrow> nat \<Rightarrow> nat list \<Rightarrow> nat list \<Rightarrow> error + nat" where
  "getLinearIndex_loop linear_index acc_mul ms [] = Inr linear_index"
| "getLinearIndex_loop linear_index acc_mul [] (s # ss) = Inl IndexOutOfBounds"
| "getLinearIndex_loop linear_index acc_mul (m # ms) [s] = Inr (linear_index + m * acc_mul)"
| "getLinearIndex_loop linear_index acc_mul (m # ms) (s # s' # ss) =
     (if s' = 0 then Inl DivisionByZero
      else getLinearIndex_loop (linear_index + m * acc_mul) (acc_mul div s') ms (s' # ss))"

definition getLinearIndex :: "nat list \<Rightarrow> nat list \<Rightarrow> error + nat" where
  "getLinearIndex multidim_index shape =
     (if length multidim_index \<noteq> length shape then Inl AssertionFailed
      else getLinearIndex_loop 0 (acc_mul_init shape) multidim_index shape)"





text \<open>An index is valid for a shape: same rank, every coordinate below its extent.\<close>

definition valid_index :: "nat list \<Rightarrow> nat list \<Rightarrow> bool" where
  "valid_index idx shape \<longleftrightarrow> list_all2 (\<lambda>i s. i < s) idx shape"

subsection \<open>The blocked layout\<close>

text \<open>
  The fields of \<^verbatim>\<open>TritonGPUBlockedEncodingAttr\<close> that the file reads, under the names
  of their accessors.
\<close>

record BlockedEncoding =
  getSizePerThread :: "nat list"
  getThreadsPerWarp :: "nat list"
  getWarpsPerCTA :: "nat list"
  getOrder :: "nat list"

text \<open>
  \<^verbatim>\<open>getElemsPerThread\<close>: one step of the loop over the dimensions, then the loop.
  \<^verbatim>\<open>elems\<close> is \<^verbatim>\<open>unsigned\<close>, and so are the entries of \<^verbatim>\<open>threadsPerWarp\<close> and
  \<^verbatim>\<open>warpsPerCTA\<close>: their product wraps modulo \<open>2^32\<close>. The extent \<^verbatim>\<open>shape[d]\<close> is the
  \<^verbatim>\<open>int64_t\<close> extent of a static tensor type, so it is not negative; the quotient and
  its product with \<^verbatim>\<open>elems\<close> are computed in \<^verbatim>\<open>int64_t\<close>, and the assignment back to
  \<^verbatim>\<open>elems\<close> keeps the low 32 bits.
\<close>

definition getElemsPerThread_step :: "BlockedEncoding \<Rightarrow> nat list \<Rightarrow> nat \<Rightarrow> nat \<Rightarrow> error + nat" where
  "getElemsPerThread_step layout shape d elems =
     ebind (at_index shape d) (\<lambda>s.
     ebind (at_index (getThreadsPerWarp layout) d) (\<lambda>t.
     ebind (at_index (getWarpsPerCTA layout) d) (\<lambda>w.
     ebind (udiv s (to_unsigned (t * w))) (\<lambda>q. Inr (to_unsigned (elems * q))))))"

definition getElemsPerThread :: "BlockedEncoding \<Rightarrow> nat list \<Rightarrow> error + nat" where
  "getElemsPerThread layout shape =
     (if length shape \<noteq> length (getThreadsPerWarp layout) then Inl AssertionFailed
      else efold (getElemsPerThread_step layout shape) [0..<length shape] 1)"

text \<open>
  The divisibility invariant of the specification: every extent is a multiple of
  \<open>sizePerThread[d] * threadsPerWarp[d] * warpsPerCTA[d]\<close>; the three size vectors
  have the rank of the shape and every extent and layout parameter is positive.
\<close>

definition layout_ranked :: "BlockedEncoding \<Rightarrow> nat \<Rightarrow> bool" where
  "layout_ranked layout rank \<longleftrightarrow>
     length (getSizePerThread layout) = rank \<and> length (getThreadsPerWarp layout) = rank \<and>
     length (getWarpsPerCTA layout) = rank \<and>
     list_all (\<lambda>x. 0 < x) (getSizePerThread layout) \<and>
     list_all (\<lambda>x. 0 < x) (getThreadsPerWarp layout) \<and>
     list_all (\<lambda>x. 0 < x) (getWarpsPerCTA layout)"

definition tile_size :: "BlockedEncoding \<Rightarrow> nat \<Rightarrow> nat" where
  "tile_size layout d =
     getSizePerThread layout ! d * getThreadsPerWarp layout ! d * getWarpsPerCTA layout ! d"

definition divisible :: "BlockedEncoding \<Rightarrow> nat list \<Rightarrow> bool" where
  "divisible layout shape \<longleftrightarrow>
     layout_ranked layout (length shape) \<and>
     list_all (\<lambda>d. 0 < shape ! d \<and> shape ! d mod tile_size layout d = 0) [0..<length shape]"

subsection \<open>Module attributes\<close>

text \<open>
  An attribute is an \<^verbatim>\<open>IntegerAttr\<close>, carrying the value of its \<^verbatim>\<open>APInt\<close> read as
  an unsigned number, or something else. A module is its attribute dictionary, a list
  of named attributes; \<^verbatim>\<open>getAttr\<close> looks a name up and returns a null attribute when
  the name is absent.
\<close>

datatype Attribute = IntegerAttr nat | OtherAttr

type_synonym ModuleOp = "(string \<times> Attribute) list"

definition getAttr :: "ModuleOp \<Rightarrow> string \<Rightarrow> Attribute option" where
  "getAttr module name = map_of module name"

text \<open>
  Modelled from the spec: the constant \<^verbatim>\<open>AttrNumWarpsName\<close> is declared in the dialect's
  header, which is not part of this file; its value is the attribute name
  \<^verbatim>\<open>triton_gpu.num-warps\<close> that the fatal diagnostic of \<^verbatim>\<open>extractNumWarps\<close> quotes.
\<close>

definition AttrNumWarpsName :: string where
  "AttrNumWarpsName = ''triton_gpu.num-warps''"

text \<open>
  \<^verbatim>\<open>extractNumWarps\<close>: without the attribute, \<^verbatim>\<open>report_fatal_error\<close>. Otherwise
  \<^verbatim>\<open>dyn_cast<IntegerAttr>\<close> gives a null attribute for an attribute of another kind, and
  \<^verbatim>\<open>getValue\<close> dereferences it. \<^verbatim>\<open>APInt::getZExtValue\<close> asserts that the value has at
  most 64 active bits; the \<^verbatim>\<open>uint64_t\<close> is then narrowed to \<^verbatim>\<open>int\<close>, which keeps the low
  32 bits, read as two's complement.
\<close>

definition getZExtValue :: "nat \<Rightarrow> error + nat" where
  "getZExtValue v = (if v < 2 ^ 64 then Inr v else Inl AssertionFailed)"

definition narrow_to_int :: "nat \<Rightarrow> int" where
  "narrow_to_int v =
     (let r = int (v mod 2 ^ 32) in if r < 2 ^ 31 then r else r - 2 ^ 32)"

definition extractNumWarps :: "ModuleOp \<Rightarrow> error + int" where
  "extractNumWarps module =
     (case getAttr module AttrNumWarpsName of
        Some a \<Rightarrow>
          (case a of
             IntegerAttr v \<Rightarrow> ebind (getZExtValue v) (\<lambda>z. Inr (narrow_to_int z))
           | OtherAttr \<Rightarrow> Inl NullValue)
      | None \<Rightarrow>
          Inl (FatalError ''TritonGPU module should contain a triton_gpu.num-warps attribute''))"

subsection \<open>Per-lane aggregates\<close>

text \<open>
  The value that an SSA value of the emitted code denotes in one lane: a scalar, an
  undefined value, or a struct of such values. A \<^verbatim>\<open>Value\<close> handle of the source that
  may be null is an \<open>option\<close>.
\<close>

datatype 'a llvm_val = Scalar 'a | Undef | Struct "'a llvm_val list"

text \<open>
  \<^verbatim>\<open>LLVM::ExtractValueOp\<close> at position \<open>i\<close>, after the \<^verbatim>\<open>cast<LLVMStructType>\<close> and the
  subscript \<^verbatim>\<open>getBody()[i]\<close> of \<^verbatim>\<open>getElementsFromStruct\<close>.
\<close>

definition extractvalue :: "'a llvm_val \<Rightarrow> nat \<Rightarrow> error + 'a llvm_val" where
  "extractvalue llvmStruct i =
     (case llvmStruct of Struct fs \<Rightarrow> at_index fs i | _ \<Rightarrow> Inl AssertionFailed)"

definition getElementsFromStruct :: "'a llvm_val \<Rightarrow> nat \<Rightarrow> error + 'a llvm_val list" where
  "getElementsFromStruct llvmStruct elems = emap (extractvalue llvmStruct) [0..<elems]"

text \<open>\<^verbatim>\<open>LLVM::InsertValueOp\<close>: a null operand or a position outside the struct is an error.\<close>

definition insertvalue :: "'a llvm_val \<Rightarrow> 'a llvm_val option \<Rightarrow> nat \<Rightarrow> error + 'a llvm_val" where
  "insertvalue llvmStruct v i =
     (case v of
        None \<Rightarrow> Inl NullValue
      | Some x \<Rightarrow>
          (case llvmStruct of
             Struct fs \<Rightarrow> ebind (set_index fs i x) (\<lambda>fs'. Inr (Struct fs'))
           | _ \<Rightarrow> Inl AssertionFailed))"

text \<open>A literal struct type is the list of its field types.\<close>

definition getStructFromElements :: "'a llvm_val option list \<Rightarrow> 't list \<Rightarrow> error + 'a llvm_val" where
  "getStructFromElements resultVals structType =
     efold (\<lambda>(i, v) llvmStruct. insertvalue llvmStruct v i) (enumerate 0 resultVals)
       (Struct (replicate (length structType) Undef))"

subsection \<open>Type conversion\<close>

text \<open>
  The encoding attribute of a tensor type: one of the three layouts of the dialect, or
  no attribute.
\<close>

datatype Encoding = Blocked BlockedEncoding | Mma | Shared | NoEncoding

record 'e RankedTensorType =
  getShape :: "nat list"
  getElementType :: 'e
  getEncoding :: Encoding

text \<open>
  \<^verbatim>\<open>convertTritonTensorType\<close>; \<open>convertType\<close> is the element type conversion of the base
  \<^verbatim>\<open>LLVMTypeConverter\<close>. \<open>None\<close> is \<^verbatim>\<open>llvm::None\<close>. A tensor type without encoding has a
  null \<^verbatim>\<open>Attribute\<close>, on which \<^verbatim>\<open>dyn_cast\<close> asserts.
\<close>

definition convertTritonTensorType :: "('e \<Rightarrow> 't) \<Rightarrow> 'e RankedTensorType \<Rightarrow> error + 't list option" where
  "convertTritonTensorType convertType type =
     (case getEncoding type of
        Blocked blocked_layout \<Rightarrow>
          ebind (getElemsPerThread blocked_layout (getShape type)) (\<lambda>numElementsPerThread.
          Inr (Some (replicate numElementsPerThread (convertType (getElementType type)))))
      | Mma \<Rightarrow> Inr None
      | Shared \<Rightarrow> Inr None
      | NoEncoding \<Rightarrow> Inl AssertionFailed)"

subsection \<open>Per-lane element mapping\<close>

text \<open>\<^verbatim>\<open>reordered[i] = shape[order[i]]\<close>\<close>

definition reorder :: "nat list \<Rightarrow> nat list \<Rightarrow> error + nat list" where
  "reorder shape order =
     emap (\<lambda>i. ebind (at_index order i) (at_index shape)) [0..<length shape]"

text \<open>
  \<^verbatim>\<open>delinearize(rewriter, loc, linear, shape)\<close>: the value each emitted \<^verbatim>\<open>URemOp\<close> and
  \<^verbatim>\<open>UDivOp\<close> computes for the lane. The vector \<open>multiDim\<close> has \<open>rank\<close> slots, all of which
  the function assigns; the slots start at 0 here.
\<close>

definition delinearize :: "nat \<Rightarrow> nat list \<Rightarrow> error + nat list" where
  "delinearize linear shape =
     (let rank = length shape in
      if rank = 0 then Inl AssertionFailed
      else if rank = 1 then set_index (replicate rank 0) 0 linear
      else
        ebind (efold (\<lambda>(index, dimSize) (remained, multiDim).
                 ebind (urem remained dimSize) (\<lambda>r.
                 ebind (set_index multiDim (rank - 1 - index) r) (\<lambda>multiDim'.
                 ebind (udiv remained dimSize) (\<lambda>q. Inr (q, multiDim')))))
               (enumerate 0 (rev (drop 1 shape))) (linear, replicate rank 0))
          (\<lambda>(remained, multiDim). set_index multiDim 0 remained))"

text \<open>\<^verbatim>\<open>delinearize(rewriter, loc, linear, shape, order)\<close>\<close>

definition delinearize_order :: "nat \<Rightarrow> nat list \<Rightarrow> nat list \<Rightarrow> error + nat list" where
  "delinearize_order linear shape order =
     (if length shape \<noteq> length order then Inl AssertionFailed
      else ebind (reorder shape order) (delinearize linear))"

text \<open>The four nested loops that fill \<open>offset[k]\<close> by \<^verbatim>\<open>push_back\<close>.\<close>

definition offsets_of_dim :: "nat \<Rightarrow> nat \<Rightarrow> nat \<Rightarrow> nat \<Rightarrow> nat list" where
  "offsets_of_dim numBlocks sizePerThreadK threadsPerWarpK warpsPerCTAK =
     concat (map (\<lambda>blockOffset.
       concat (map (\<lambda>warpOffset.
         concat (map (\<lambda>threadOffset.
           map (\<lambda>elemOffset.
                  blockOffset * sizePerThreadK * threadsPerWarpK * warpsPerCTAK +
                  warpOffset * sizePerThreadK * threadsPerWarpK +
                  threadOffset * sizePerThreadK + elemOffset)
             [0..<sizePerThreadK])
           [0..<threadsPerWarpK]))
         [0..<warpsPerCTAK]))
       [0..<numBlocks])"

text \<open>Step 1 of \<^verbatim>\<open>emitIndicesForBlockedLayout\<close>: the base index of the lane.\<close>

definition emitIndices_base :: "BlockedEncoding \<Rightarrow> nat \<Rightarrow> nat \<Rightarrow> error + nat list" where
  "emitIndices_base blocked_layout rank threadId =
     (let warpSize = 32;
          laneId = threadId mod warpSize;
          warpId = threadId div warpSize;
          sizePerThread = getSizePerThread blocked_layout;
          threadsPerWarp = getThreadsPerWarp blocked_layout;
          warpsPerCTA = getWarpsPerCTA blocked_layout;
          order = getOrder blocked_layout
      in
        ebind (delinearize_order warpId warpsPerCTA order) (\<lambda>multiDimWarpId.
        ebind (delinearize_order laneId threadsPerWarp order) (\<lambda>multiDimThreadId.
        emap (\<lambda>k.
               ebind (at_index threadsPerWarp k) (\<lambda>threadsPerWarpK.
               ebind (at_index sizePerThread k) (\<lambda>sizePerThreadK.
               ebind (at_index multiDimThreadId k) (\<lambda>t.
               ebind (at_index multiDimWarpId k) (\<lambda>w.
               Inr (sizePerThreadK * (t + w * threadsPerWarpK)))))))
          [0..<rank])))"

text \<open>
  Step 2, for dimension \<open>k\<close>: \<open>multiDimElemsPerThread[k]\<close> and the vector \<open>offset[k]\<close>.
\<close>

definition emitIndices_offset :: "BlockedEncoding \<Rightarrow> nat list \<Rightarrow> nat \<Rightarrow> error + nat \<times> nat list" where
  "emitIndices_offset blocked_layout shape k =
     ebind (at_index shape k) (\<lambda>shapeK.
     ebind (at_index (getThreadsPerWarp blocked_layout) k) (\<lambda>threadsPerWarpK.
     ebind (udiv shapeK threadsPerWarpK) (\<lambda>q.
     ebind (at_index (getWarpsPerCTA blocked_layout) k) (\<lambda>warpsPerCTAK.
     ebind (udiv q warpsPerCTAK) (\<lambda>multiDimElemsPerThreadK.
     ebind (at_index (getSizePerThread blocked_layout) k) (\<lambda>sizePerThreadK.
     ebind (udiv shapeK (sizePerThreadK * threadsPerWarpK * warpsPerCTAK)) (\<lambda>numBlocks.
     Inr (multiDimElemsPerThreadK,
          offsets_of_dim numBlocks sizePerThreadK threadsPerWarpK warpsPerCTAK))))))))"

text \<open>Step 3, for element \<open>n\<close> of the lane: its index, one coordinate per dimension.\<close>

definition emitIndices_elem ::
  "BlockedEncoding \<Rightarrow> nat \<Rightarrow> nat list \<Rightarrow> nat list list \<Rightarrow> nat \<Rightarrow> nat list \<Rightarrow> nat \<Rightarrow> error + nat list" where
  "emitIndices_elem blocked_layout rank multiDimBase offset accumSizePerThread threadsPerDim n =
     (let sizePerThread = getSizePerThread blocked_layout;
          threadsPerWarp = getThreadsPerWarp blocked_layout;
          warpsPerCTA = getWarpsPerCTA blocked_layout
      in
        ebind (udiv n accumSizePerThread) (\<lambda>linearNanoTileId.
        ebind (urem n accumSizePerThread) (\<lambda>linearElemsInNanoTileId.
        ebind (getMultiDimIndex linearNanoTileId threadsPerDim) (\<lambda>multiDimNanoTileId.
        ebind (getMultiDimIndex linearElemsInNanoTileId sizePerThread) (\<lambda>multiElemsInNanoTileId.
        emap (\<lambda>k.
               ebind (at_index multiDimNanoTileId k) (\<lambda>tile.
               ebind (at_index sizePerThread k) (\<lambda>sizePerThreadK.
               ebind (at_index threadsPerWarp k) (\<lambda>threadsPerWarpK.
               ebind (at_index warpsPerCTA k) (\<lambda>warpsPerCTAK.
               ebind (at_index multiElemsInNanoTileId k) (\<lambda>elem.
               ebind (at_index multiDimBase k) (\<lambda>base.
               ebind (at_index offset k) (\<lambda>offsetK.
               ebind (at_index offsetK
                        (tile * (sizePerThreadK * threadsPerWarpK * warpsPerCTAK) + elem))
                 (\<lambda>off. Inr (base + off))))))))))
          [0..<rank])))))"

definition emitIndicesForBlockedLayout :: "BlockedEncoding \<Rightarrow> nat list \<Rightarrow> nat \<Rightarrow> error + nat list list" where
  "emitIndicesForBlockedLayout blocked_layout shape threadId =
     (let rank = length shape;
          sizePerThread = getSizePerThread blocked_layout
      in
        ebind (emitIndices_base blocked_layout rank threadId) (\<lambda>multiDimBase.
        ebind (emap (emitIndices_offset blocked_layout shape) [0..<rank]) (\<lambda>perDim.
          let elemsPerThread = fold (\<lambda>(m, offs) e. e * m) perDim 1;
              offset = map snd perDim;
              accumSizePerThread = fold (\<lambda>s acc. acc * s) sizePerThread 1
          in
            ebind (emap (\<lambda>k. ebind (at_index shape k) (\<lambda>shapeK.
                              ebind (at_index sizePerThread k) (udiv shapeK)))
                     [0..<rank]) (\<lambda>threadsPerDim.
            emap (emitIndices_elem blocked_layout rank multiDimBase offset
                    accumSizePerThread threadsPerDim)
              [0..<elemsPerThread]))))"

subsection \<open>Broadcast\<close>

text \<open>
  The state of the first loop of \<^verbatim>\<open>BroadcastOpConversion::matchAndRewrite\<close>, which
  splits every dimension into a tile count and a per-lane run.
\<close>

record BroadcastShapes =
  srcLogicalShape :: "nat list"
  resultLogicalShape :: "nat list"
  broadcastDims :: "nat list"
  broadcastSizes :: "nat list"
  duplicates :: nat

definition BroadcastOp_shapes_step ::
  "BlockedEncoding \<Rightarrow> nat list \<Rightarrow> nat list \<Rightarrow> nat \<Rightarrow> nat \<Rightarrow> BroadcastShapes \<Rightarrow> error + BroadcastShapes" where
  "BroadcastOp_shapes_step resultLayout srcShape resultShape rank d st =
     ebind (at_index resultShape d) (\<lambda>resultShapeD.
     ebind (at_index (getSizePerThread resultLayout) d) (\<lambda>sizePerThreadD.
     ebind (at_index (getThreadsPerWarp resultLayout) d) (\<lambda>threadsPerWarpD.
     ebind (at_index (getWarpsPerCTA resultLayout) d) (\<lambda>warpsPerCTAD.
     ebind (udiv resultShapeD (sizePerThreadD * threadsPerWarpD * warpsPerCTAD)) (\<lambda>numCtas.
     ebind (at_index srcShape d) (\<lambda>srcShapeD.
     ebind
       (if srcShapeD \<noteq> resultShapeD then
          (if srcShapeD \<noteq> 1 then Inl AssertionFailed
           else
             ebind (set_index (srcLogicalShape st) d 1) (\<lambda>sls.
             ebind (set_index sls (d + rank) 1) (\<lambda>sls'.
             Inr (st\<lparr>srcLogicalShape := sls',
                     broadcastDims := broadcastDims st @ [d],
                     broadcastSizes := broadcastSizes st @ [resultShapeD],
                     duplicates := duplicates st * resultShapeD\<rparr>))))
        else
          ebind (set_index (srcLogicalShape st) d numCtas) (\<lambda>sls.
          ebind (set_index sls (d + rank) sizePerThreadD) (\<lambda>sls'.
          Inr (st\<lparr>srcLogicalShape := sls'\<rparr>))))
       (\<lambda>st'.
     ebind (set_index (resultLogicalShape st') d numCtas) (\<lambda>rls.
     ebind (set_index rls (d + rank) sizePerThreadD) (\<lambda>rls'.
     Inr (st'\<lparr>resultLogicalShape := rls'\<rparr>))))))))))"

definition BroadcastOp_shapes :: "BlockedEncoding \<Rightarrow> nat list \<Rightarrow> nat list \<Rightarrow> error + BroadcastShapes" where
  "BroadcastOp_shapes resultLayout srcShape resultShape =
     (let rank = length srcShape in
      efold (BroadcastOp_shapes_step resultLayout srcShape resultShape rank) [0..<rank]
        \<lparr>srcLogicalShape = replicate (2 * rank) 0,
         resultLogicalShape = replicate (2 * rank) 0,
         broadcastDims = [], broadcastSizes = [], duplicates = 1\<rparr>)"

text \<open>
  \<^verbatim>\<open>for (auto bcastDim : llvm::enumerate(broadcastDims))
    resultMultiDim[bcastDim.value()] = bcastMultiDim[bcastDim.index()];\<close>
\<close>

definition overwrite_dims :: "nat list \<Rightarrow> nat list \<Rightarrow> nat list \<Rightarrow> error + nat list" where
  "overwrite_dims dims bcastMultiDim resultMultiDim =
     efold (\<lambda>(index, value) multiDim.
              ebind (at_index bcastMultiDim index) (set_index multiDim value))
       (enumerate 0 dims) resultMultiDim"

text \<open>
  The body of the loop over \<open>j\<close>; its state is \<open>resultMultiDim\<close>, declared outside that
  loop, and \<open>resultVals\<close>, whose slots are null handles until they are assigned.
\<close>

definition BroadcastOp_copy ::
  "BroadcastShapes \<Rightarrow> 'a list \<Rightarrow> nat \<Rightarrow> nat \<Rightarrow> nat list \<times> 'a option list \<Rightarrow> error + nat list \<times> 'a option list" where
  "BroadcastOp_copy sh srcVals i j st =
     (case st of (resultMultiDim, resultVals) \<Rightarrow>
        ebind (getMultiDimIndex j (broadcastSizes sh)) (\<lambda>bcastMultiDim.
        ebind (overwrite_dims (broadcastDims sh) bcastMultiDim resultMultiDim) (\<lambda>resultMultiDim'.
        ebind (getLinearIndex resultMultiDim' (resultLogicalShape sh)) (\<lambda>resultLinearIndex.
        ebind (at_index srcVals i) (\<lambda>v.
        ebind (set_index resultVals resultLinearIndex (Some v)) (\<lambda>resultVals'.
        Inr (resultMultiDim', resultVals')))))))"

text \<open>The body of the loop over \<open>i\<close>.\<close>

definition BroadcastOp_elem ::
  "BroadcastShapes \<Rightarrow> 'a list \<Rightarrow> nat \<Rightarrow> 'a option list \<Rightarrow> error + 'a option list" where
  "BroadcastOp_elem sh srcVals i resultVals =
     ebind (getMultiDimIndex i (srcLogicalShape sh)) (\<lambda>srcMultiDim.
     ebind (efold (BroadcastOp_copy sh srcVals i) [0..<duplicates sh] (srcMultiDim, resultVals))
       (\<lambda>st. Inr (snd st)))"

text \<open>
  \<^verbatim>\<open>BroadcastOpConversion::matchAndRewrite\<close>, from the two tensor types and the lane's
  source aggregate to the lane's result aggregate.
\<close>

definition BroadcastOp_matchAndRewrite ::
  "('e \<Rightarrow> 't) \<Rightarrow> 'e RankedTensorType \<Rightarrow> 'e RankedTensorType \<Rightarrow> 'a llvm_val \<Rightarrow> error + 'a llvm_val" where
  "BroadcastOp_matchAndRewrite convertType srcTy resultTy src =
     (case (getEncoding srcTy, getEncoding resultTy) of
        (Blocked srcLayout, Blocked resultLayout) \<Rightarrow>
          if srcLayout \<noteq> resultLayout then Inl AssertionFailed
          else
            let srcShape = getShape srcTy; resultShape = getShape resultTy in
            if length srcShape \<noteq> length resultShape then Inl AssertionFailed
            else
              ebind (BroadcastOp_shapes resultLayout srcShape resultShape) (\<lambda>sh.
              ebind (getElemsPerThread srcLayout srcShape) (\<lambda>srcElems.
              ebind (getElementsFromStruct src srcElems) (\<lambda>srcVals.
              ebind (getElemsPerThread resultLayout resultShape) (\<lambda>resultElems.
              ebind (efold (BroadcastOp_elem sh srcVals) [0..<srcElems]
                       (replicate resultElems None)) (\<lambda>resultVals.
              ebind (convertTritonTensorType convertType resultTy) (\<lambda>llvmStructTy.
              case llvmStructTy of
                None \<Rightarrow> Inl NullValue
              | Some structType \<Rightarrow> getStructFromElements resultVals structType))))))
      | _ \<Rightarrow> Inl AssertionFailed)"

subsection \<open>Masked vectorized load\<close>

text \<open>\<^verbatim>\<open>vecWidth = blockedLayout.getSizePerThread()[blockedLayout.getOrder()[0]]\<close>\<close>

definition LoadOp_vecWidth :: "BlockedEncoding \<Rightarrow> error + nat" where
  "LoadOp_vecWidth blockedLayout =
     ebind (at_index (getOrder blockedLayout) 0) (at_index (getSizePerThread blockedLayout))"

text \<open>
  Conversions of an \<^verbatim>\<open>int\<close> to \<^verbatim>\<open>unsigned\<close> and to \<^verbatim>\<open>size_t\<close> (64 bits), and the division
  of \<^verbatim>\<open>int\<close>, which truncates towards zero and traps on a zero divisor and on the one
  quotient that does not fit.
\<close>

definition int_to_unsigned :: "int \<Rightarrow> nat" where
  "int_to_unsigned x = nat (x mod 2 ^ 32)"

definition int_to_size_t :: "int \<Rightarrow> nat" where
  "int_to_size_t x = nat (x mod 2 ^ 64)"

definition idiv :: "int \<Rightarrow> int \<Rightarrow> error + int" where
  "idiv a b =
     (if b = 0 \<or> (a = - (2 ^ 31) \<and> b = - 1) then Inl DivisionByZero
      else Inr (sgn a * sgn b * (\<bar>a\<bar> div \<bar>b\<bar>)))"

text \<open>
  \<^verbatim>\<open>nbits\<close> and \<^verbatim>\<open>vecWidth\<close> are \<^verbatim>\<open>unsigned\<close>; the four widths are \<^verbatim>\<open>int\<close>:
  \<^verbatim>\<open>max_word_width = std::max<int>(32, nbits)\<close> converts \<^verbatim>\<open>nbits\<close> to \<^verbatim>\<open>int\<close>,
  \<^verbatim>\<open>tot_width = nbits * vecWidth\<close> multiplies in \<^verbatim>\<open>unsigned\<close> and converts the product,
  \<^verbatim>\<open>width = std::min(tot_width, max_word_width)\<close> and
  \<^verbatim>\<open>n_words = std::max(1, tot_width / width)\<close>.
\<close>

definition LoadOp_max_word_width :: "nat \<Rightarrow> int" where
  "LoadOp_max_word_width nbits = max 32 (narrow_to_int nbits)"

definition LoadOp_tot_width :: "nat \<Rightarrow> nat \<Rightarrow> int" where
  "LoadOp_tot_width nbits vecWidth = narrow_to_int (to_unsigned (nbits * vecWidth))"

definition LoadOp_width :: "nat \<Rightarrow> nat \<Rightarrow> int" where
  "LoadOp_width nbits vecWidth =
     min (LoadOp_tot_width nbits vecWidth) (LoadOp_max_word_width nbits)"

definition LoadOp_n_words :: "nat \<Rightarrow> nat \<Rightarrow> error + int" where
  "LoadOp_n_words nbits vecWidth =
     ebind (idiv (LoadOp_tot_width nbits vecWidth) (LoadOp_width nbits vecWidth))
       (\<lambda>q. Inr (max 1 q))"

text \<open>
  What the lowering emits for the group of elements that starts at \<open>i\<close>: one inline
  assembly operation with a predicate, a pointer, \<open>n_words\<close> result words of \<open>width\<close>
  bits and the fallback words (vectors of \<open>width / nbits\<close> fallback values, absent when
  the fallback is a splat constant), and \<open>vecWidth\<close> scalar results, each extracted from
  slot \<open>ii % tmp\<close> of result word \<open>ii / tmp\<close>. The text of the instruction and of its
  constraints is not part of the model.
\<close>

record ('p, 'm, 'o) LoadGroup =
  asm_ptr :: 'p
  asm_pred :: 'm
  asm_ret_words :: int
  asm_word_width :: int
  asm_others :: "'o list list"
  loaded :: "(nat \<times> nat) list"

text \<open>
  The loop that builds the fallback words: \<^verbatim>\<open>ii\<close> is a \<^verbatim>\<open>size_t\<close> compared with the
  \<^verbatim>\<open>int n_words\<close>, and \<^verbatim>\<open>size = width / nbits\<close> divides in \<^verbatim>\<open>unsigned\<close>.
\<close>

definition LoadOp_others :: "'o list \<Rightarrow> nat \<Rightarrow> int \<Rightarrow> int \<Rightarrow> nat \<Rightarrow> error + 'o list list" where
  "LoadOp_others otherVals nbits width n_words i =
     emap (\<lambda>ii.
            ebind (udiv (int_to_unsigned width) nbits) (\<lambda>size.
            emap (\<lambda>s. at_index otherVals (i + ii * size + s)) [0..<size]))
       [0..<int_to_size_t n_words]"

text \<open>
  The loop that fills \<^verbatim>\<open>rets\<close> runs over an \<^verbatim>\<open>unsigned int\<close> below \<^verbatim>\<open>n_words\<close>;
  \<^verbatim>\<open>int tmp = (width / nbits)\<close> divides in \<^verbatim>\<open>unsigned\<close> and converts the quotient; in
  \<^verbatim>\<open>ii % tmp\<close> and \<^verbatim>\<open>rets[ii / tmp]\<close> the \<^verbatim>\<open>size_t ii\<close> makes \<^verbatim>\<open>tmp\<close> a \<^verbatim>\<open>size_t\<close>.
\<close>

definition LoadOp_loaded :: "nat \<Rightarrow> nat \<Rightarrow> int \<Rightarrow> int \<Rightarrow> error + (nat \<times> nat) list" where
  "LoadOp_loaded nbits vecWidth width n_words =
     ebind (udiv (int_to_unsigned width) nbits) (\<lambda>q.
     (let tmp = narrow_to_int q in
      emap (\<lambda>ii.
             ebind (urem ii (int_to_size_t tmp)) (\<lambda>vecIdx.
             ebind (udiv ii (int_to_size_t tmp)) (\<lambda>word.
             ebind (at_index [0..<int_to_unsigned n_words] word) (\<lambda>w. Inr (w, vecIdx)))))
        [0..<vecWidth]))"

definition LoadOp_group ::
  "'p list \<Rightarrow> 'm list \<Rightarrow> 'o list \<Rightarrow> bool \<Rightarrow> nat \<Rightarrow> nat \<Rightarrow> int \<Rightarrow> int \<Rightarrow> nat \<Rightarrow> error + ('p, 'm, 'o) LoadGroup" where
  "LoadOp_group ptrVals maskVals otherVals otherIsSplatConstInt nbits vecWidth width n_words i =
     ebind (at_index ptrVals i) (\<lambda>ptr.
     ebind (at_index maskVals i) (\<lambda>pred.
     ebind (LoadOp_others otherVals nbits width n_words i) (\<lambda>others.
     ebind (LoadOp_loaded nbits vecWidth width n_words) (\<lambda>extracted.
     Inr \<lparr>asm_ptr = ptr, asm_pred = pred, asm_ret_words = n_words, asm_word_width = width,
          asm_others = (if otherIsSplatConstInt then [] else others),
          loaded = extracted\<rparr>))))"

text \<open>
  \<^verbatim>\<open>for (size_t i = 0; i < numElems; i += vecWidth)\<close>. The loop is entered with a positive
  \<open>vecWidth\<close> only: with \<open>vecWidth = 0\<close> the division \<^verbatim>\<open>tot_width / width\<close> before the loop
  divides by zero.
\<close>

function LoadOp_loop :: "(nat \<Rightarrow> error + 'g) \<Rightarrow> nat \<Rightarrow> nat \<Rightarrow> nat \<Rightarrow> error + 'g list" where
  "LoadOp_loop body numElems vecWidth i =
     (if vecWidth = 0 then Inl DivisionByZero
      else if i < numElems then
        (case body i of
           Inl e \<Rightarrow> Inl e
         | Inr g \<Rightarrow>
             (case LoadOp_loop body numElems vecWidth (i + vecWidth) of
                Inl e \<Rightarrow> Inl e
              | Inr gs \<Rightarrow> Inr (g # gs)))
      else Inr [])"
  by pat_completeness auto
termination
  by (relation "measure (\<lambda>(body, numElems, vecWidth, i). numElems - i)") auto

declare LoadOp_loop.simps [simp del]

text \<open>
  \<^verbatim>\<open>LoadOpConversion::matchAndRewrite\<close> up to the list of groups: the layout must be
  blocked, the three operand aggregates (pointers, masks, fallback values) are unpacked
  to \<open>numElems\<close> values each.
\<close>

definition LoadOp_matchAndRewrite ::
  "'e RankedTensorType \<Rightarrow> nat \<Rightarrow> bool \<Rightarrow> 'a llvm_val \<Rightarrow> 'a llvm_val \<Rightarrow> 'a llvm_val \<Rightarrow>
     error + ('a llvm_val, 'a llvm_val, 'a llvm_val) LoadGroup list" where
  "LoadOp_matchAndRewrite resultTy nbits otherIsSplatConstInt ptrs masks others =
     (case getEncoding resultTy of
        Blocked blockedLayout \<Rightarrow>
          ebind (LoadOp_vecWidth blockedLayout) (\<lambda>vecWidth.
          ebind (getElemsPerThread blockedLayout (getShape resultTy)) (\<lambda>numElems.
          ebind (getElementsFromStruct ptrs numElems) (\<lambda>ptrVals.
          ebind (getElementsFromStruct masks numElems) (\<lambda>maskVals.
          ebind (getElementsFromStruct others numElems) (\<lambda>otherVals.
          ebind (LoadOp_n_words nbits vecWidth) (\<lambda>n_words.
          LoadOp_loop
            (LoadOp_group ptrVals maskVals otherVals otherIsSplatConstInt nbits vecWidth
               (LoadOp_width nbits vecWidth) n_words)
            numElems vecWidth 0))))))
      | _ \<Rightarrow> Inl AssertionFailed)"

text \<open>
  The scalar results of all groups in the order of \<^verbatim>\<open>loadedVals\<close>, each as the position
  in the lane's sequence of the element it holds: the word \<open>w\<close> of the group that starts
  at \<open>i\<close> holds the elements \<open>i + w * size ..< i + (w + 1) * size\<close>, as the fallback words
  do, where \<open>size\<close>, here \<open>word_size\<close>, is the number of elements in a word.
\<close>

definition loaded_positions :: "nat \<Rightarrow> nat \<Rightarrow> ('p, 'm, 'o) LoadGroup list \<Rightarrow> nat list" where
  "loaded_positions vecWidth word_size groups =
     concat (map (\<lambda>(g, grp). map (\<lambda>(w, s). g * vecWidth + w * word_size + s) (loaded grp))
               (enumerate 0 groups))"

subsection \<open>Row-major reference functions\<close>

text \<open>
  The mathematical row-major decomposition and linearisation, without an accumulator
  and without error cases. They are used to state and prove what the loops of
  \<open>getMultiDimIndex\<close> and \<open>getLinearIndex\<close> compute.
\<close>

fun row_major_index :: "nat \<Rightarrow> nat list \<Rightarrow> nat list" where
  "row_major_index r [] = []"
| "row_major_index r (s # ss) = (r div prod_list ss) # row_major_index (r mod prod_list ss) ss"

fun row_major_linear :: "nat list \<Rightarrow> nat list \<Rightarrow> nat" where
  "row_major_linear (m # ms) (s # ss) = m * prod_list ss + row_major_linear ms ss"
| "row_major_linear _ _ = 0"


text \<open>The quotients that \<open>getElemsPerThread\<close> multiplies, one per dimension.\<close>

definition elems_quotients :: "BlockedEncoding \<Rightarrow> nat list \<Rightarrow> nat list" where
  "elems_quotients layout shape =
     map (\<lambda>d. shape ! d div to_unsigned (getThreadsPerWarp layout ! d * getWarpsPerCTA layout ! d))
       [0..<length shape]"

subsection \<open>Reference functions for the broadcast\<close>



section \<open>Properties\<close>

subsection \<open>The index algebra\<close>

lemma fold_mult_prod: "fold (\<lambda>s acc. acc * s) xs (a::nat) = a * prod_list xs"
  by (induction xs arbitrary: a) (simp_all add: mult.assoc)

lemma acc_mul_init_Cons: "acc_mul_init (s # ss) = prod_list ss"
  by (simp add: acc_mul_init_def fold_mult_prod)

lemma acc_mul_init_Nil: "acc_mul_init [] = 1"
  by (simp add: acc_mul_init_def)

lemma prod_list_pos: "\<forall>s\<in>set ss. 0 < s \<Longrightarrow> 0 < prod_list (ss::nat list)"
  by (induction ss) simp_all

lemma getMultiDimIndex_loop_eq:
  "\<forall>x\<in>set ss. 0 < x \<Longrightarrow>
   getMultiDimIndex_loop r (prod_list ss) (s # ss) = Inr (row_major_index r (s # ss))"
proof (induction ss arbitrary: r s)
  case Nil
  then show ?case by simp
next
  case (Cons a ss)
  then have "0 < prod_list ss" "0 < a" by (simp_all add: prod_list_pos)
  with Cons show ?case by simp
qed

lemma getMultiDimIndex_eq:
  "\<forall>x\<in>set (drop 1 shape). 0 < x \<Longrightarrow> getMultiDimIndex l shape = Inr (row_major_index l shape)"
  by (cases shape) (simp_all add: getMultiDimIndex_def acc_mul_init_Cons getMultiDimIndex_loop_eq)

lemma getLinearIndex_loop_eq:
  "\<forall>x\<in>set ss. 0 < x \<Longrightarrow> length ms = length ss \<Longrightarrow>
   getLinearIndex_loop lin (prod_list ss) (m # ms) (s # ss) = Inr (lin + row_major_linear (m # ms) (s # ss))"
proof (induction ss arbitrary: lin m ms s)
  case Nil
  then show ?case by simp
next
  case (Cons a ss)
  then obtain m' ms' where ms: "ms = m' # ms'" by (cases ms) auto
  from Cons have "0 < prod_list ss" "0 < a" by (simp_all add: prod_list_pos)
  with Cons ms show ?case by (simp add: mult.commute)
qed

lemma getLinearIndex_eq:
  "\<forall>x\<in>set (drop 1 shape). 0 < x \<Longrightarrow> length idx = length shape \<Longrightarrow>
   getLinearIndex idx shape = Inr (row_major_linear idx shape)"
proof (cases shape)
  case Nil
  then show "length idx = length shape \<Longrightarrow> ?thesis" by (simp add: getLinearIndex_def)
next
  case (Cons s ss)
  assume a: "\<forall>x\<in>set (drop 1 shape). 0 < x" "length idx = length shape"
  with Cons obtain m ms where idx: "idx = m # ms" by (cases idx) auto
  with a Cons show ?thesis
    by (simp add: getLinearIndex_def acc_mul_init_Cons getLinearIndex_loop_eq)
qed

lemma length_row_major_index [simp]: "length (row_major_index r shape) = length shape"
  by (induction shape arbitrary: r) simp_all

lemma row_major_roundtrip_bounded:
  "\<forall>x\<in>set ss. 0 < x \<Longrightarrow> r < prod_list ss \<Longrightarrow> row_major_linear (row_major_index r ss) ss = r"
proof (induction ss arbitrary: r)
  case Nil
  then show ?case by simp
next
  case (Cons a ss)
  then have "0 < prod_list ss" by (simp add: prod_list_pos)
  then have "r mod prod_list ss < prod_list ss" by simp
  with Cons have "row_major_linear (row_major_index (r mod prod_list ss) ss) ss = r mod prod_list ss"
    by simp
  then show ?case by simp
qed

lemma row_major_roundtrip:
  assumes "\<forall>x\<in>set ss. 0 < x"
  shows "row_major_linear (row_major_index r (s # ss)) (s # ss) = r"
proof -
  from assms have "0 < prod_list ss" by (simp add: prod_list_pos)
  then have "r mod prod_list ss < prod_list ss" by simp
  with assms have "row_major_linear (row_major_index (r mod prod_list ss) ss) ss = r mod prod_list ss"
    by (rule row_major_roundtrip_bounded)
  then show ?thesis by simp
qed

lemma valid_index_Cons: "valid_index (m # ms) (s # ss) \<longleftrightarrow> m < s \<and> valid_index ms ss"
  by (simp add: valid_index_def)

lemma valid_index_length: "valid_index idx shape \<Longrightarrow> length idx = length shape"
  by (simp add: valid_index_def list_all2_lengthD)


lemma row_major_linear_bound:
  "valid_index idx shape \<Longrightarrow> row_major_linear idx shape < prod_list shape"
  unfolding valid_index_def
proof (induction idx shape rule: list_all2_induct)
  case Nil
  then show ?case by simp
next
  case (Cons m ms s ss)
  have "m * prod_list ss + row_major_linear ms ss < m * prod_list ss + prod_list ss"
    using Cons by simp
  also have "\<dots> = (m + 1) * prod_list ss" by simp
  also have "\<dots> \<le> s * prod_list ss" using Cons by (intro mult_le_mono1) simp
  finally show ?case by simp
qed

lemma row_major_index_linear:
  "valid_index idx shape \<Longrightarrow> row_major_index (row_major_linear idx shape) shape = idx"
proof (induction idx shape rule: row_major_linear.induct)
  case (1 m ms s ss)
  then have v: "valid_index ms ss" and "m < s" by (simp_all add: valid_index_Cons)
  from v have b: "row_major_linear ms ss < prod_list ss" by (rule row_major_linear_bound)
  with 1 v show ?case by simp
qed (auto simp: valid_index_def)

lemma row_major_index_valid:
  "\<forall>x\<in>set shape. 0 < x \<Longrightarrow> r < prod_list shape \<Longrightarrow> valid_index (row_major_index r shape) shape"
proof (induction shape arbitrary: r)
  case Nil
  then show ?case by (simp add: valid_index_def)
next
  case (Cons s ss)
  then have p: "0 < prod_list ss" by (simp add: prod_list_pos)
  have "r div prod_list ss < s" using Cons.prems(2) p
    by (simp add: less_mult_imp_div_less)
  moreover have "valid_index (row_major_index (r mod prod_list ss) ss) ss"
    using Cons p by simp
  ultimately show ?case by (simp add: valid_index_Cons)
qed


text \<open>
  On the integers, where no product and no sum overflows: for a shape of positive
  extents, \<open>getMultiDimIndex\<close> and \<open>getLinearIndex\<close> are mutually inverse conversions
  between the linear indices below the product of the shape and the valid
  multi-dimensional indices.
\<close>

lemma index_roundtrip_integers:
  assumes "\<forall>x\<in>set shape. 0 < x"
  shows "(l < prod_list shape \<longrightarrow>
            (\<exists>idx. getMultiDimIndex l shape = Inr idx \<and> valid_index idx shape \<and>
                   getLinearIndex idx shape = Inr l))
       \<and> (valid_index idx shape \<longrightarrow>
            (\<exists>l. getLinearIndex idx shape = Inr l \<and> l < prod_list shape \<and>
                 getMultiDimIndex l shape = Inr idx))"
proof (intro conjI impI)
  from assms have tl: "\<forall>x\<in>set (drop 1 shape). 0 < x"
    by (auto dest: in_set_dropD)
  {
    assume l: "l < prod_list shape"
    let ?idx = "row_major_index l shape"
    have "getMultiDimIndex l shape = Inr ?idx" using tl by (rule getMultiDimIndex_eq)
    moreover have "valid_index ?idx shape" using assms l by (rule row_major_index_valid)
    moreover have "getLinearIndex ?idx shape = Inr l"
      using tl assms l by (simp add: getLinearIndex_eq row_major_roundtrip_bounded)
    ultimately show "\<exists>idx. getMultiDimIndex l shape = Inr idx \<and> valid_index idx shape \<and>
                   getLinearIndex idx shape = Inr l" by blast
  }
  {
    assume v: "valid_index idx shape"
    let ?l = "row_major_linear idx shape"
    have "getLinearIndex idx shape = Inr ?l"
      using tl v by (simp add: getLinearIndex_eq valid_index_length)
    moreover have "?l < prod_list shape" using v by (rule row_major_linear_bound)
    moreover have "getMultiDimIndex ?l shape = Inr idx"
      using tl v by (simp add: getMultiDimIndex_eq row_major_index_linear)
    ultimately show "\<exists>l. getLinearIndex idx shape = Inr l \<and> l < prod_list shape \<and>
                 getMultiDimIndex l shape = Inr idx" by blast
  }
qed

lemma index_roundtrip_integers_example:
  "23 < prod_list [2, 3, 4::nat] \<and> getMultiDimIndex 23 [2, 3, 4] = Inr [1, 2, 3] \<and>
   getLinearIndex [1, 2, 3] [2, 3, 4] = Inr 23 \<and> valid_index [1, 2, 3] [2, 3, 4]"
proof -
  have h: "\<forall>x\<in>set [2, 3, 4::nat]. 0 < x" by simp
  have v: "valid_index [1, 2, 3] [2, 3, 4]" by (simp add: valid_index_def)
  have b: "23 < prod_list [2, 3, 4::nat]" by simp
  from index_roundtrip_integers [OF h, of 23 "[1, 2, 3]"] v b
  obtain idx l where
    "getMultiDimIndex 23 [2, 3, 4] = Inr idx" "getLinearIndex idx [2, 3, 4] = Inr 23"
    "getLinearIndex [1, 2, 3] [2, 3, 4] = Inr l" "getMultiDimIndex l [2, 3, 4] = Inr [1, 2, 3]"
    by blast
  moreover have "getLinearIndex [1, 2, 3] [2, 3, 4] = Inr 23"
    by (simp add: getLinearIndex_def acc_mul_init_def)
  ultimately show ?thesis using h v b by simp
qed

subsection \<open>The index algebra at \<^verbatim>\<open>unsigned\<close>\<close>














subsection \<open>Errors and loops\<close>

lemma ebind_Inr [simp]: "ebind (Inr x) f = f x"
  by (simp add: ebind_def)

lemma ebind_Inl [simp]: "ebind (Inl e) f = Inl e"
  by (simp add: ebind_def)

lemma ebind_eq_Inr: "ebind m f = Inr y \<longleftrightarrow> (\<exists>x. m = Inr x \<and> f x = Inr y)"
  by (cases m) simp_all

lemma at_index_eq [simp]: "i < length xs \<Longrightarrow> at_index xs i = Inr (xs ! i)"
  by (simp add: at_index_def)

lemma set_index_eq [simp]: "i < length xs \<Longrightarrow> set_index xs i v = Inr (xs[i := v])"
  by (simp add: set_index_def)

lemma udiv_eq [simp]: "0 < b \<Longrightarrow> udiv a b = Inr (a div b)"
  by (simp add: udiv_def)

lemma urem_eq [simp]: "0 < b \<Longrightarrow> urem a b = Inr (a mod b)"
  by (simp add: urem_def)

lemma efold_invariant:
  assumes "I i s" and "i \<le> n"
    and "\<And>k t. i \<le> k \<Longrightarrow> k < n \<Longrightarrow> I k t \<Longrightarrow> \<exists>t'. f k t = Inr t' \<and> I (Suc k) t'"
  shows "\<exists>s'. efold f [i..<n] s = Inr s' \<and> I n s'"
  using assms
proof (induction "n - i" arbitrary: i s)
  case 0
  then show ?case by simp
next
  case (Suc m)
  then have lt: "i < n" by simp
  from Suc.prems(3) [of i s] lt Suc.prems(1)
  obtain t where t: "f i s = Inr t" "I (Suc i) t" by auto
  have "\<exists>s'. efold f [Suc i..<n] t = Inr s' \<and> I n s'"
  proof (rule Suc.hyps(1))
    show "m = n - Suc i" using Suc.hyps(2) by simp
    show "I (Suc i) t" by (rule t)
    show "Suc i \<le> n" using lt by simp
    show "\<And>k u. Suc i \<le> k \<Longrightarrow> k < n \<Longrightarrow> I k u \<Longrightarrow> \<exists>t'. f k u = Inr t' \<and> I (Suc k) t'"
      using Suc.prems(3) by simp
  qed
  with t lt show ?case by (simp add: upt_conv_Cons)
qed

lemma emap_eq_map:
  "(\<And>x. x \<in> set xs \<Longrightarrow> f x = Inr (g x)) \<Longrightarrow> emap f xs = Inr (map g xs)"
  by (induction xs) simp_all

lemma emap_Inr_nth:
  "emap f xs = Inr ys \<Longrightarrow> length ys = length xs \<and> (\<forall>i<length xs. f (xs ! i) = Inr (ys ! i))"
proof (induction xs arbitrary: ys)
  case Nil
  then show ?case by simp
next
  case (Cons x xs)
  then obtain y ys' where y: "f x = Inr y" "emap f xs = Inr ys'" "ys = y # ys'"
    by (auto split: sum.splits)
  with Cons.IH [of ys'] show ?case by (auto simp: nth_Cons')
qed

subsection \<open>Elements per lane and the aggregate type\<close>

lemma to_unsigned_mult_left [simp]: "to_unsigned (to_unsigned a * b) = to_unsigned (a * b)"
  by (simp add: to_unsigned_def mod_mult_left_eq)

lemma to_unsigned_id: "x < 2 ^ 32 \<Longrightarrow> to_unsigned x = x"
  by (simp add: to_unsigned_def)

lemma to_unsigned_code [code]: "to_unsigned x = nat (int x mod 4294967296)"
  by (simp add: to_unsigned_def nat_mod_distrib)

lemma getElemsPerThread_eq:
  assumes "length (getThreadsPerWarp layout) = length shape"
    and "length shape \<le> length (getWarpsPerCTA layout)"
    and "\<forall>d<length shape.
           0 < to_unsigned (getThreadsPerWarp layout ! d * getWarpsPerCTA layout ! d)"
  shows "getElemsPerThread layout shape =
           Inr (to_unsigned (prod_list (elems_quotients layout shape)))"
proof -
  let ?q = "\<lambda>d. shape ! d div
                to_unsigned (getThreadsPerWarp layout ! d * getWarpsPerCTA layout ! d)"
  let ?I = "\<lambda>k e. e = to_unsigned (prod_list (map ?q [0..<k]))"
  have "\<exists>e. efold (getElemsPerThread_step layout shape) [0..<length shape] 1 = Inr e
            \<and> ?I (length shape) e"
  proof (rule efold_invariant [where I = ?I and i = 0 and n = "length shape"])
    show "?I 0 1" by (simp add: to_unsigned_def)
    show "0 \<le> length shape" by simp
    fix k t assume "k < length shape" "?I k t"
    with assms show "\<exists>t'. getElemsPerThread_step layout shape k t = Inr t' \<and> ?I (Suc k) t'"
      by (simp add: getElemsPerThread_step_def)
  qed
  with assms(1) show ?thesis by (auto simp: getElemsPerThread_def elems_quotients_def)
qed

text \<open>The only errors of \<open>getElemsPerThread\<close>: none of them is the fatal error.\<close>

lemma efold_error:
  assumes "\<And>x s e. f x s = Inl e \<Longrightarrow> P e" and "efold f xs s = Inl e"
  shows "P e"
  using assms(2)
proof (induction xs arbitrary: s)
  case Nil
  then show ?case by simp
next
  case (Cons x xs)
  show ?case
  proof (cases "f x s")
    case (Inl e')
    with Cons.prems have "e' = e" by simp
    with Inl assms(1) show ?thesis by blast
  next
    case (Inr s')
    with Cons.prems have "efold f xs s' = Inl e" by simp
    then show ?thesis by (rule Cons.IH)
  qed
qed

lemma getElemsPerThread_step_error:
  "getElemsPerThread_step layout shape d elems = Inl e \<Longrightarrow>
     e = IndexOutOfBounds \<or> e = DivisionByZero"
  by (auto simp: getElemsPerThread_step_def ebind_def at_index_def udiv_def
        split: sum.splits if_splits)

lemma getElemsPerThread_error:
  assumes "getElemsPerThread layout shape = Inl e"
  shows "e = AssertionFailed \<or> e = IndexOutOfBounds \<or> e = DivisionByZero"
proof (cases "length shape = length (getThreadsPerWarp layout)")
  case True
  with assms
  have "efold (getElemsPerThread_step layout shape) [0..<length shape] 1 = Inl e"
    by (simp add: getElemsPerThread_def)
  then have "e = IndexOutOfBounds \<or> e = DivisionByZero"
    by (rule efold_error [rotated]) (rule getElemsPerThread_step_error)
  then show ?thesis by blast
next
  case False
  with assms show ?thesis by (simp add: getElemsPerThread_def)
qed

text \<open>
  C9, as the claim states it, fails: \<^verbatim>\<open>elems\<close> is \<^verbatim>\<open>unsigned\<close>. For the shape
  \<open>[65536, 65536]\<close> with \<open>threadsPerWarp = warpsPerCTA = [1, 1]\<close> the product of the
  quotients is \<open>2^32\<close>, and \<open>getElemsPerThread\<close> returns 0.
\<close>

theorem getElemsPerThread_wraps_counterexample:
  "getElemsPerThread \<lparr>getSizePerThread = [1, 1], getThreadsPerWarp = [1, 1],
      getWarpsPerCTA = [1, 1], getOrder = [1, 0]\<rparr> [65536, 65536] = Inr 0
   \<and> (\<Prod>d\<leftarrow>[0..<2]. [65536, 65536] ! d div ([1, 1] ! d * [1, 1] ! d)) = (4294967296 :: nat)"
  by (simp add: getElemsPerThread_def getElemsPerThread_step_def to_unsigned_def upt_rec)

text \<open>
  C9, amended. For a blocked layout and a shape of the same rank, \<open>getElemsPerThread\<close>
  returns the product over the dimensions of \<open>shape[d] / (threadsPerWarp[d] * warpsPerCTA[d])\<close>
  as \<^verbatim>\<open>unsigned\<close> arithmetic computes it: each divisor is reduced modulo \<open>2^32\<close> (and must
  not be zero after that, else the division traps), and so is the product. The type
  conversion of a tensor type with that layout and shape is a struct of exactly that
  many fields, each the converted element type. When every divisor and the product
  of the quotients are below \<open>2^32\<close> the count is the plain product of the claim.
\<close>

theorem getElemsPerThread_product:
  assumes "length (getThreadsPerWarp layout) = length shape"
    and "length shape \<le> length (getWarpsPerCTA layout)"
    and "\<forall>d<length shape.
           0 < (getThreadsPerWarp layout ! d * getWarpsPerCTA layout ! d) mod 2 ^ 32"
  shows "getElemsPerThread layout shape =
           Inr ((\<Prod>d\<leftarrow>[0..<length shape].
                  shape ! d div ((getThreadsPerWarp layout ! d * getWarpsPerCTA layout ! d) mod 2 ^ 32))
                mod 2 ^ 32)
       \<and> (getEncoding type = Blocked layout \<longrightarrow> getShape type = shape \<longrightarrow>
            convertTritonTensorType convertType type =
              Inr (Some (replicate
                ((\<Prod>d\<leftarrow>[0..<length shape].
                   shape ! d div ((getThreadsPerWarp layout ! d * getWarpsPerCTA layout ! d) mod 2 ^ 32))
                 mod 2 ^ 32)
                (convertType (getElementType type)))))
       \<and> ((\<forall>d<length shape. getThreadsPerWarp layout ! d * getWarpsPerCTA layout ! d < 2 ^ 32) \<longrightarrow>
          (\<Prod>d\<leftarrow>[0..<length shape].
              shape ! d div (getThreadsPerWarp layout ! d * getWarpsPerCTA layout ! d)) < 2 ^ 32 \<longrightarrow>
          getElemsPerThread layout shape =
            Inr (\<Prod>d\<leftarrow>[0..<length shape].
                   shape ! d div (getThreadsPerWarp layout ! d * getWarpsPerCTA layout ! d)))"
proof -
  have e: "getElemsPerThread layout shape =
             Inr (to_unsigned (prod_list (elems_quotients layout shape)))"
    using assms by (intro getElemsPerThread_eq) (simp_all add: to_unsigned_def)
  have q: "elems_quotients layout shape =
             map (\<lambda>d. shape ! d div (getThreadsPerWarp layout ! d * getWarpsPerCTA layout ! d))
               [0..<length shape]"
    if "\<forall>d<length shape. getThreadsPerWarp layout ! d * getWarpsPerCTA layout ! d < 2 ^ 32"
    using that by (simp add: elems_quotients_def to_unsigned_def)
  from e have a: "getElemsPerThread layout shape =
           Inr ((\<Prod>d\<leftarrow>[0..<length shape].
                  shape ! d div ((getThreadsPerWarp layout ! d * getWarpsPerCTA layout ! d) mod 2 ^ 32))
                mod 2 ^ 32)"
    by (simp add: to_unsigned_def elems_quotients_def)
  from a have b: "getEncoding type = Blocked layout \<longrightarrow> getShape type = shape \<longrightarrow>
            convertTritonTensorType convertType type =
              Inr (Some (replicate
                ((\<Prod>d\<leftarrow>[0..<length shape].
                   shape ! d div ((getThreadsPerWarp layout ! d * getWarpsPerCTA layout ! d) mod 2 ^ 32))
                 mod 2 ^ 32)
                (convertType (getElementType type))))"
    by (simp add: convertTritonTensorType_def)
  have c: "(\<forall>d<length shape. getThreadsPerWarp layout ! d * getWarpsPerCTA layout ! d < 2 ^ 32) \<longrightarrow>
          (\<Prod>d\<leftarrow>[0..<length shape].
              shape ! d div (getThreadsPerWarp layout ! d * getWarpsPerCTA layout ! d)) < 2 ^ 32 \<longrightarrow>
          getElemsPerThread layout shape =
            Inr (\<Prod>d\<leftarrow>[0..<length shape].
                   shape ! d div (getThreadsPerWarp layout ! d * getWarpsPerCTA layout ! d))"
    using e q by (simp add: to_unsigned_def)
  from a b c show ?thesis by blast
qed

theorem getElemsPerThread_product_witness:
  "getElemsPerThread \<lparr>getSizePerThread = [1, 4], getThreadsPerWarp = [4, 8],
      getWarpsPerCTA = [2, 1], getOrder = [1, 0]\<rparr> [16, 64] = Inr 16
   \<and> convertTritonTensorType (\<lambda>e. e)
       \<lparr>getShape = [16, 64], getElementType = ''f16'',
        getEncoding = Blocked \<lparr>getSizePerThread = [1, 4], getThreadsPerWarp = [4, 8],
          getWarpsPerCTA = [2, 1], getOrder = [1, 0]\<rparr>\<rparr> = Inr (Some (replicate 16 ''f16''))"
proof -
  let ?L = "\<lparr>getSizePerThread = [1, 4], getThreadsPerWarp = [4, 8],
      getWarpsPerCTA = [2, 1], getOrder = [1::nat, 0]\<rparr>"
  let ?ty = "\<lparr>getShape = [16, 64], getElementType = ''f16'', getEncoding = Blocked ?L\<rparr>"
  have h1: "length (getThreadsPerWarp ?L) = length [16, 64::nat]" by simp
  have h2: "length [16, 64::nat] \<le> length (getWarpsPerCTA ?L)" by simp
  have h3: "\<forall>d<length [16, 64::nat].
              0 < (getThreadsPerWarp ?L ! d * getWarpsPerCTA ?L ! d) mod 2 ^ 32"
    by (simp add: nth_Cons' less_Suc_eq)
  have p: "(\<Prod>d\<leftarrow>[0..<length [16, 64::nat]].
              [16, 64] ! d div ((getThreadsPerWarp ?L ! d * getWarpsPerCTA ?L ! d) mod 2 ^ 32))
            mod 2 ^ 32 = 16"
    by (simp add: upt_rec)
  have g: "getEncoding ?ty = Blocked ?L" "getShape ?ty = [16, 64]" by simp_all
  note t = getElemsPerThread_product [OF h1 h2 h3, of ?ty "\<lambda>e. e"]
  from t [THEN conjunct1] have a: "getElemsPerThread ?L [16, 64] = Inr 16"
    by (simp only: p)
  from t [THEN conjunct2, THEN conjunct1, rule_format, OF g]
  have b: "convertTritonTensorType (\<lambda>e. e) ?ty = Inr (Some (replicate 16 ''f16''))"
    by (simp only: p) simp
  from a b show ?thesis by (rule conjI)
qed

text \<open>
  C7, as the claim states it, fails: for the shape \<open>[5]\<close> with \<open>sizePerThread = [1]\<close>,
  \<open>threadsPerWarp = [4]\<close>, \<open>warpsPerCTA = [1]\<close> the extent 5 is not a multiple of 4, and
  \<open>getElemsPerThread\<close> returns 1, the truncated quotient, without any error.
\<close>

theorem getElemsPerThread_truncates_counterexample:
  "\<not> divisible \<lparr>getSizePerThread = [1], getThreadsPerWarp = [4], getWarpsPerCTA = [1],
       getOrder = [0]\<rparr> [5]
   \<and> getElemsPerThread \<lparr>getSizePerThread = [1], getThreadsPerWarp = [4], getWarpsPerCTA = [1],
       getOrder = [0]\<rparr> [5] = Inr 1"
  by (simp add: divisible_def tile_size_def getElemsPerThread_def getElemsPerThread_step_def
        to_unsigned_def)

text \<open>
  C7, amended. \<open>getElemsPerThread\<close> checks no divisibility and never raises the fatal
  configuration error: its only failures are the assertion on the ranks, a subscript
  out of range and a division by zero. Whenever the ranks agree and no divisor
  \<open>threadsPerWarp[d] * warpsPerCTA[d]\<close> is zero in \<^verbatim>\<open>unsigned\<close> arithmetic it returns the
  product of the truncated quotients \<open>shape[d] / (threadsPerWarp[d] * warpsPerCTA[d])\<close>,
  computed in \<^verbatim>\<open>unsigned\<close> arithmetic, whether or not the extents are multiples of the
  tile sizes; the count does not depend on \<open>sizePerThread\<close>, which the function never
  reads.
\<close>

theorem getElemsPerThread_no_divisibility_check:
  "(\<forall>diagnostic. getElemsPerThread layout shape \<noteq> Inl (FatalError diagnostic))
   \<and> (length (getThreadsPerWarp layout) = length shape \<longrightarrow>
      length shape \<le> length (getWarpsPerCTA layout) \<longrightarrow>
      (\<forall>d<length shape.
          0 < (getThreadsPerWarp layout ! d * getWarpsPerCTA layout ! d) mod 2 ^ 32) \<longrightarrow>
      getElemsPerThread layout shape =
        Inr (prod_list (map (\<lambda>d. shape ! d div
               ((getThreadsPerWarp layout ! d * getWarpsPerCTA layout ! d) mod 2 ^ 32))
               [0..<length shape]) mod 2 ^ 32)
      \<and> (\<forall>sizes. getElemsPerThread (layout\<lparr>getSizePerThread := sizes\<rparr>) shape =
            getElemsPerThread layout shape))"
proof -
  have nf: "\<forall>diagnostic. getElemsPerThread layout shape \<noteq> Inl (FatalError diagnostic)"
    using getElemsPerThread_error [of layout shape] by auto
  have v: "getElemsPerThread (layout\<lparr>getSizePerThread := sizes\<rparr>) shape =
        Inr (prod_list (map (\<lambda>d. shape ! d div
               ((getThreadsPerWarp layout ! d * getWarpsPerCTA layout ! d) mod 2 ^ 32))
               [0..<length shape]) mod 2 ^ 32)"
    if "length (getThreadsPerWarp layout) = length shape"
      and "length shape \<le> length (getWarpsPerCTA layout)"
      and "\<forall>d<length shape.
          0 < (getThreadsPerWarp layout ! d * getWarpsPerCTA layout ! d) mod 2 ^ 32"
    for sizes
    using getElemsPerThread_eq [of "layout\<lparr>getSizePerThread := sizes\<rparr>" shape] that
    by (simp add: elems_quotients_def to_unsigned_def)
  from v [of "getSizePerThread layout"] v nf show ?thesis by simp
qed

theorem getElemsPerThread_no_divisibility_check_witness:
  "\<not> divisible \<lparr>getSizePerThread = [2], getThreadsPerWarp = [4], getWarpsPerCTA = [1],
       getOrder = [0]\<rparr> [5]
   \<and> getElemsPerThread \<lparr>getSizePerThread = [2], getThreadsPerWarp = [4],
         getWarpsPerCTA = [1], getOrder = [0]\<rparr> [5] = Inr 1"
proof -
  let ?L = "\<lparr>getSizePerThread = [2], getThreadsPerWarp = [4], getWarpsPerCTA = [1],
       getOrder = [0::nat]\<rparr>"
  have h1: "length (getThreadsPerWarp ?L) = length [5::nat]" by simp
  have h2: "length [5::nat] \<le> length (getWarpsPerCTA ?L)" by simp
  have h3: "\<forall>d<length [5::nat].
              0 < (getThreadsPerWarp ?L ! d * getWarpsPerCTA ?L ! d) mod 2 ^ 32" by simp
  have d: "\<not> divisible ?L [5]" by (simp add: divisible_def tile_size_def)
  note t = getElemsPerThread_no_divisibility_check [of ?L "[5]", THEN conjunct2, THEN mp, THEN mp, THEN mp,
      OF h1 h2 h3, THEN conjunct1]
  from t
  have "getElemsPerThread ?L [5] = Inr 1" by simp
  with d show ?thesis by (rule conjI)
qed

subsection \<open>The number of warps of a module\<close>

text \<open>
  C8, as the claim states it, fails: the value of the attribute is narrowed to \<^verbatim>\<open>int\<close>.
  A module whose \<^verbatim>\<open>triton_gpu.num-warps\<close> attribute is the 64-bit integer \<open>2^32\<close> has
  the attribute, and \<open>extractNumWarps\<close> returns 0.
\<close>

theorem extractNumWarps_narrows_counterexample:
  "getAttr [(''triton_gpu.num-warps'', IntegerAttr 4294967296)] AttrNumWarpsName
     = Some (IntegerAttr 4294967296)
   \<and> extractNumWarps [(''triton_gpu.num-warps'', IntegerAttr 4294967296)] = Inr 0"
  by (simp add: extractNumWarps_def getAttr_def AttrNumWarpsName_def getZExtValue_def
        narrow_to_int_def)

text \<open>
  C8, amended. \<open>extractNumWarps\<close> ends in the fatal error, with its diagnostic, when the
  module has no \<^verbatim>\<open>triton_gpu.num-warps\<close> attribute. When the module has it as an integer
  attribute of at most 64 bits, \<open>extractNumWarps\<close> returns the \<^verbatim>\<open>int\<close> that has the low
  32 bits of the value; this is the value of the attribute when that is below \<open>2^31\<close>.
\<close>

theorem extractNumWarps_correct:
  "(getAttr module AttrNumWarpsName = None \<longrightarrow>
      extractNumWarps module =
        Inl (FatalError ''TritonGPU module should contain a triton_gpu.num-warps attribute''))
   \<and> (getAttr module AttrNumWarpsName = Some (IntegerAttr v) \<longrightarrow> v < 2 ^ 64 \<longrightarrow>
        (\<exists>r. extractNumWarps module = Inr r \<and> - (2 ^ 31) \<le> r \<and> r < 2 ^ 31
              \<and> (r - int v) mod 2 ^ 32 = 0)
        \<and> (v < 2 ^ 31 \<longrightarrow> extractNumWarps module = Inr (int v)))"
proof -
  have r: "- (2 ^ 31) \<le> narrow_to_int v \<and> narrow_to_int v < 2 ^ 31
           \<and> (narrow_to_int v - int v) mod 2 ^ 32 = 0"
  proof -
    have b: "0 \<le> int (v mod 2 ^ 32)" "int (v mod 2 ^ 32) < 2 ^ 32"
      by simp_all
    have "(int (v mod 2 ^ 32) - int v) mod 2 ^ 32 = 0"
      by (simp add: zmod_int mod_diff_left_eq)
    moreover have "(int (v mod 2 ^ 32) - 2 ^ 32 - int v) mod 2 ^ 32 = 0"
      by (simp add: zmod_int mod_diff_left_eq mod_diff_right_eq [symmetric]
            diff_diff_eq algebra_simps)
    moreover have "v mod 4294967296 < (4294967296::nat)" by simp
    then have "v mod 4294967296 < (6442450944::nat)" by linarith
    ultimately show ?thesis using b
      by (simp add: narrow_to_int_def Let_def)
  qed
  have s: "narrow_to_int v = int v" if "v < 2 ^ 31"
    using that by (simp add: narrow_to_int_def Let_def)
  show ?thesis
    using r s by (simp add: extractNumWarps_def getZExtValue_def)
qed

theorem extractNumWarps_correct_witness:
  "extractNumWarps [] =
     Inl (FatalError ''TritonGPU module should contain a triton_gpu.num-warps attribute'')
   \<and> extractNumWarps [(''triton_gpu.num-warps'', IntegerAttr 4)] = Inr 4"
proof -
  let ?m = "[(''triton_gpu.num-warps'', IntegerAttr 4)]"
  have a: "getAttr ?m AttrNumWarpsName = Some (IntegerAttr 4)"
    by (simp add: getAttr_def AttrNumWarpsName_def)
  have b: "(4::nat) < 2 ^ 64" "(4::nat) < 2 ^ 31" by simp_all
  have n: "getAttr [] AttrNumWarpsName = None" by (simp add: getAttr_def)
  from extractNumWarps_correct [of ?m 4, THEN conjunct2, THEN mp, THEN mp, OF a b(1),
      THEN conjunct2, THEN mp, OF b(2)]
  have "extractNumWarps ?m = Inr 4" by simp
  moreover from extractNumWarps_correct [of "[]" 0, THEN conjunct1, THEN mp, OF n]
  have "extractNumWarps [] =
     Inl (FatalError ''TritonGPU module should contain a triton_gpu.num-warps attribute'')" .
  ultimately show ?thesis by simp
qed

subsection \<open>Packing and unpacking the per-lane aggregate\<close>

lemma insertvalue_field:
  "insertvalue (Struct (pre @ f # fs)) (Some w) (length pre) = Inr (Struct (pre @ w # fs))"
  by (simp add: insertvalue_def)

lemma insert_all_fields:
  "length fs = length ws \<Longrightarrow> length pre = k \<Longrightarrow>
   efold (\<lambda>(i, v) llvmStruct. insertvalue llvmStruct v i) (enumerate k (map Some ws))
     (Struct (pre @ fs)) = Inr (Struct (pre @ ws))"
proof (induction ws arbitrary: k pre fs)
  case Nil
  then show ?case by simp
next
  case (Cons w ws)
  then obtain f fs' where fs: "fs = f # fs'" by (cases fs) auto
  have "efold (\<lambda>(i, v) llvmStruct. insertvalue llvmStruct v i) (enumerate (Suc k) (map Some ws))
     (Struct ((pre @ [w]) @ fs')) = Inr (Struct ((pre @ [w]) @ ws))"
    using Cons.prems fs by (intro Cons.IH) simp_all
  moreover have "insertvalue (Struct (pre @ f # fs')) (Some w) k = Inr (Struct (pre @ w # fs'))"
    using Cons.prems(2) insertvalue_field [of pre f fs' w] by simp
  ultimately show ?case using fs by simp
qed

lemma getStructFromElements_eq:
  "length structType = length vs \<Longrightarrow>
   getStructFromElements (map Some vs) structType = Inr (Struct vs)"
  using insert_all_fields [of "replicate (length structType) Undef" vs "[]" 0]
  by (simp add: getStructFromElements_def)

lemma getElementsFromStruct_eq:
  "elems \<le> length fs \<Longrightarrow> getElementsFromStruct (Struct fs) elems = Inr (take elems fs)"
proof -
  assume le: "elems \<le> length fs"
  have "emap (extractvalue (Struct fs)) [0..<elems] = Inr (map ((!) fs) [0..<elems])"
    using le by (intro emap_eq_map) (simp add: extractvalue_def)
  also have "map ((!) fs) [0..<elems] = take elems fs"
    using le by (simp add: list_eq_iff_nth_eq)
  finally show ?thesis by (simp add: getElementsFromStruct_def)
qed

text \<open>
  C6. Packing \<open>N\<close> values with \<open>getStructFromElements\<close> into a struct type of \<open>N\<close>
  fields gives the struct whose fields are the values in the order of the input, and
  unpacking it with \<open>getElementsFromStruct\<close> for the count \<open>N\<close> returns the same values
  in the same order.
\<close>

theorem struct_roundtrip:
  assumes "length structType = length vs"
  shows "getStructFromElements (map Some vs) structType = Inr (Struct vs)
       \<and> ebind (getStructFromElements (map Some vs) structType)
           (\<lambda>llvmStruct. getElementsFromStruct llvmStruct (length vs)) = Inr vs"
  using assms by (simp add: getStructFromElements_eq getElementsFromStruct_eq)

theorem struct_roundtrip_witness:
  "ebind (getStructFromElements [Some (Scalar ''a''), Some (Scalar ''b''), Some (Scalar ''c'')]
            [''i32'', ''i32'', ''i32''])
     (\<lambda>llvmStruct. getElementsFromStruct llvmStruct 3)
   = Inr [Scalar ''a'', Scalar ''b'', Scalar ''c'']"
proof -
  have h: "length [''i32'', ''i32'', ''i32''] = length [Scalar ''a'', Scalar ''b'', Scalar ''c'']"
    by simp
  have m: "map Some [Scalar ''a'', Scalar ''b'', Scalar ''c'']
             = [Some (Scalar ''a''), Some (Scalar ''b''), Some (Scalar ''c'')]" by simp
  have l: "length [Scalar ''a'', Scalar ''b'', Scalar ''c''] = 3" by simp
  from struct_roundtrip [OF h, THEN conjunct2] show ?thesis unfolding m l .
qed

subsection \<open>Vector width of the load\<close>

lemma LoadOp_loop_all:
  "LoadOp_loop body numElems vecWidth i = Inr gs \<Longrightarrow> \<forall>g\<in>set gs. \<exists>k. body k = Inr g"
proof (induction body numElems vecWidth i arbitrary: gs rule: LoadOp_loop.induct)
  case (1 body numElems vecWidth i)
  show ?case
  proof (cases "vecWidth \<noteq> 0 \<and> i < numElems")
    case True
    with "1.prems" obtain g gs' where g: "body i = Inr g"
      "LoadOp_loop body numElems vecWidth (i + vecWidth) = Inr gs'" "gs = g # gs'"
      by (subst (asm) LoadOp_loop.simps) (auto split: sum.splits)
    from "1.IH" [of g gs'] True g have "\<forall>g\<in>set gs'. \<exists>k. body k = Inr g" by simp
    with g show ?thesis by auto
  next
    case False
    with "1.prems" have "gs = []"
      by (subst (asm) LoadOp_loop.simps) (auto split: if_splits)
    then show ?thesis by simp
  qed
qed

text \<open>Without overflow the widths are those of the arithmetic on the integers.\<close>

lemma narrow_to_int_id: "v < 2 ^ 31 \<Longrightarrow> narrow_to_int v = int v"
  by (simp add: narrow_to_int_def Let_def)

lemma int_to_unsigned_int: "v < 2 ^ 32 \<Longrightarrow> int_to_unsigned (int v) = v"
  by (simp add: int_to_unsigned_def nat_mod_distrib)

lemma int_to_size_t_int: "v < 2 ^ 64 \<Longrightarrow> int_to_size_t (int v) = v"
  by (simp add: int_to_size_t_def nat_mod_distrib)

lemma idiv_int: "0 < b \<Longrightarrow> idiv (int a) (int b) = Inr (int (a div b))"
  by (cases "a = 0") (simp_all add: idiv_def zdiv_int)

lemma LoadOp_widths:
  assumes "0 < nbits" and "0 < vecWidth" and "nbits * vecWidth < 2 ^ 31"
  shows "LoadOp_tot_width nbits vecWidth = int (nbits * vecWidth)"
    and "LoadOp_max_word_width nbits = int (max 32 nbits)"
    and "LoadOp_width nbits vecWidth = int (min (max 32 nbits) (nbits * vecWidth))"
    and "LoadOp_n_words nbits vecWidth =
           Inr (int (max 1 (nbits * vecWidth div min (max 32 nbits) (nbits * vecWidth))))"
proof -
  from assms(2) have "nbits \<le> nbits * vecWidth" by simp
  also note assms(3)
  finally have nb: "nbits < 2 ^ 31" .
  from assms(3) have "nbits * vecWidth < 2 ^ 32" by simp
  then have u: "to_unsigned (nbits * vecWidth) = nbits * vecWidth" by (rule to_unsigned_id)
  show t: "LoadOp_tot_width nbits vecWidth = int (nbits * vecWidth)"
    using assms(3) by (simp add: LoadOp_tot_width_def u narrow_to_int_id)
  show m: "LoadOp_max_word_width nbits = int (max 32 nbits)"
    using nb by (simp add: LoadOp_max_word_width_def narrow_to_int_id)
  show w: "LoadOp_width nbits vecWidth = int (min (max 32 nbits) (nbits * vecWidth))"
    unfolding LoadOp_width_def t m by (simp add: min.commute of_nat_min del: of_nat_mult)
  let ?W = "min (max 32 nbits) (nbits * vecWidth)"
  have "0 < ?W" using assms(1,2) by simp
  then have q: "idiv (int (nbits * vecWidth)) (int ?W) = Inr (int (nbits * vecWidth div ?W))"
    by (rule idiv_int)
  have x: "max 1 (int k) = int (max 1 k)" for k by (auto simp: max_def)
  show "LoadOp_n_words nbits vecWidth = Inr (int (max 1 (nbits * vecWidth div ?W)))"
    unfolding LoadOp_n_words_def t w q ebind_Inr x ..
qed

text \<open>With \<open>nbits = 0\<close> or \<open>vecWidth = 0\<close> the division \<^verbatim>\<open>tot_width / width\<close> traps.\<close>

lemma LoadOp_n_words_zero:
  assumes "nbits = 0 \<or> vecWidth = 0"
  shows "LoadOp_n_words nbits vecWidth = Inl DivisionByZero"
proof -
  from assms have z: "nbits * vecWidth = 0" by auto
  have t: "LoadOp_tot_width nbits vecWidth = 0"
    unfolding LoadOp_tot_width_def z by (simp add: to_unsigned_def narrow_to_int_def)
  have "0 < LoadOp_max_word_width nbits" by (simp add: LoadOp_max_word_width_def)
  with t have "LoadOp_width nbits vecWidth = 0" by (simp add: LoadOp_width_def)
  then show ?thesis by (simp add: LoadOp_n_words_def idiv_def)
qed

lemma LoadOp_group_Inr:
  assumes "LoadOp_group ptrVals maskVals otherVals splat nbits vecWidth width n_words i = Inr g"
  shows "asm_ret_words g = n_words" "asm_word_width g = width"
    "LoadOp_loaded nbits vecWidth width n_words = Inr (loaded g)"
  using assms by (auto simp: LoadOp_group_def ebind_eq_Inr)

text \<open>
  The scalar result \<open>ii\<close> of a group is slot \<open>ii % size\<close> of the word \<open>ii / size\<close>, where
  \<open>size\<close> is the number of elements in a word.
\<close>

lemma LoadOp_loaded_Inr:
  assumes nb: "0 < nbits" "nbits \<le> W" and W: "W < 2 ^ 31"
    and l: "LoadOp_loaded nbits vecWidth (int W) n_words = Inr xs"
  shows "xs = map (\<lambda>ii. (ii div (W div nbits), ii mod (W div nbits))) [0..<vecWidth]"
proof -
  let ?sz = "W div nbits"
  have sz: "0 < ?sz" using nb by (simp add: div_greater_zero_iff)
  have "?sz \<le> W" by simp
  also note W
  finally have szb: "?sz < 2 ^ 31" .
  then have "?sz < 2 ^ 64" by simp
  then have t: "int_to_size_t (narrow_to_int ?sz) = ?sz"
    using szb by (simp add: narrow_to_int_id int_to_size_t_int)
  from W have "W < 2 ^ 32" by simp
  then have u: "int_to_unsigned (int W) = W" by (rule int_to_unsigned_int)
  let ?f = "\<lambda>ii. ebind (urem ii ?sz) (\<lambda>vecIdx.
             ebind (udiv ii ?sz) (\<lambda>word.
             ebind (at_index [0..<int_to_unsigned n_words] word) (\<lambda>w. Inr (w, vecIdx))))"
  from l have e: "emap ?f [0..<vecWidth] = Inr xs"
    using nb(1) by (simp add: LoadOp_loaded_def u t Let_def)
  from emap_Inr_nth [OF e] have len: "length xs = vecWidth"
    and each: "\<forall>ii<vecWidth. ?f ii = Inr (xs ! ii)" by simp_all
  have "xs ! ii = (ii div ?sz, ii mod ?sz)" if "ii < vecWidth" for ii
  proof -
    from each that have "?f ii = Inr (xs ! ii)" by simp
    with sz have "ebind (at_index [0..<int_to_unsigned n_words] (ii div ?sz))
                    (\<lambda>w. Inr (w, ii mod ?sz)) = Inr (xs ! ii)" by simp
    then show ?thesis
      by (auto simp: ebind_eq_Inr at_index_def split: if_splits)
  qed
  with len show ?thesis by (simp add: list_eq_iff_nth_eq)
qed

lemma loaded_positions_in_order:
  "\<forall>g\<in>set groups. loaded g = map (\<lambda>ii. (ii div sz, ii mod sz)) [0..<v] \<Longrightarrow>
   concat (map (\<lambda>(g, grp). map (\<lambda>(w, s). g * v + w * sz + s) (loaded grp))
             (enumerate k groups)) = [k * v..<k * v + v * length groups]"
proof (induction groups arbitrary: k)
  case Nil
  then show ?case by simp
next
  case (Cons g groups)
  have "[k * v..<k * v + v * length (g # groups)] = [k * v..<(k * v + v) + v * length groups]"
    by (simp add: add.assoc)
  also have "\<dots> = [k * v..<k * v + v] @ [k * v + v..<(k * v + v) + v * length groups]"
    by (rule upt_add_eq_append) simp
  also have "k * v + v = Suc k * v" by simp
  finally have e: "[k * v..<k * v + v * length (g # groups)]
      = [k * v..<Suc k * v] @ [Suc k * v..<Suc k * v + v * length groups]" .
  from Cons have r: "concat (map (\<lambda>(g, grp). map (\<lambda>(w, s). g * v + w * sz + s) (loaded grp))
             (enumerate (Suc k) groups)) = [Suc k * v..<Suc k * v + v * length groups]"
    by simp
  from Cons.prems have "loaded g = map (\<lambda>ii. (ii div sz, ii mod sz)) [0..<v]" by simp
  then have "map (\<lambda>(w, s). k * v + w * sz + s) (loaded g) = map (\<lambda>ii. ii + k * v) [0..<v]"
    by (simp add: add.assoc add.commute)
  also have "\<dots> = [k * v..<Suc k * v]" by (simp add: map_add_upt add.commute)
  finally have h: "map (\<lambda>(w, s). k * v + w * sz + s) (loaded g) = [k * v..<Suc k * v]" .
  show ?case unfolding e using h r by simp
qed

lemma narrow_to_int_code [code]:
  "narrow_to_int v =
     (let r = int v mod 4294967296 in if r < 2147483648 then r else r - 4294967296)"
  by (simp add: narrow_to_int_def Let_def zmod_int)

text \<open>
  C5, as the claim states it, fails: the widths are computed in \<^verbatim>\<open>unsigned\<close> and \<^verbatim>\<open>int\<close>.
  For 32-bit elements and \<open>sizePerThread[order[0]] = 2^27\<close> the claimed width is
  \<open>min(max(32, 32), 32 * 2^27) = 32\<close>, but \<^verbatim>\<open>nbits * vecWidth\<close> wraps to 0, \<open>width\<close> is 0 and
  the lowering divides by it.
\<close>

theorem LoadOp_width_wraps_counterexample:
  "LoadOp_vecWidth \<lparr>getSizePerThread = [134217728], getThreadsPerWarp = [1],
      getWarpsPerCTA = [1], getOrder = [0]\<rparr> = Inr 134217728
   \<and> min (max 32 32) (32 * 134217728) = (32 :: nat)
   \<and> LoadOp_width 32 134217728 = 0
   \<and> LoadOp_matchAndRewrite
       \<lparr>getShape = [134217728], getElementType = ''f32'',
        getEncoding = Blocked \<lparr>getSizePerThread = [134217728], getThreadsPerWarp = [1],
          getWarpsPerCTA = [1], getOrder = [0]\<rparr>\<rparr> 32 False
       (Struct (replicate 134217728 (Scalar ''p''))) (Struct (replicate 134217728 (Scalar ''m'')))
       (Struct (replicate 134217728 (Scalar ''o''))) = Inl DivisionByZero"
proof -
  let ?L = "\<lparr>getSizePerThread = [134217728], getThreadsPerWarp = [1],
      getWarpsPerCTA = [1], getOrder = [0::nat]\<rparr>"
  have v: "LoadOp_vecWidth ?L = Inr 134217728" by (simp add: LoadOp_vecWidth_def)
  have e: "getElemsPerThread ?L [134217728] = Inr 134217728"
    by (simp add: getElemsPerThread_def getElemsPerThread_step_def to_unsigned_def)
  have u: "getElementsFromStruct (Struct (replicate 134217728 x)) 134217728
             = Inr (replicate 134217728 x)" for x :: "string llvm_val"
    by (simp add: getElementsFromStruct_eq)
  have n: "LoadOp_n_words 32 134217728 = Inl DivisionByZero"
    by (simp add: LoadOp_n_words_def LoadOp_width_def LoadOp_tot_width_def to_unsigned_def
          narrow_to_int_def LoadOp_max_word_width_def idiv_def)
  have w: "LoadOp_width 32 134217728 = 0"
    by (simp add: LoadOp_width_def LoadOp_tot_width_def to_unsigned_def
          narrow_to_int_def LoadOp_max_word_width_def)
  from v e u n w show ?thesis by (simp add: LoadOp_matchAndRewrite_def)
qed

text \<open>
  C5, amended. In every load lowering that succeeds, for a result type with a blocked
  layout and with \<open>nbits * sizePerThread[order[0]]\<close> below \<open>2^31\<close>, so that the widths fit
  \<^verbatim>\<open>int\<close>: \<open>vecWidth\<close> is \<open>sizePerThread[order[0]]\<close>; every group requests
  \<open>max(1, nbits * vecWidth / width)\<close> words of \<open>width = min(max(32, nbits), nbits * vecWidth)\<close>
  bits and yields \<open>vecWidth\<close> scalar results; and the results of all groups, in the
  order in which they are appended, are the elements of the lane in their original
  order. In particular, for 16-bit elements and \<open>vecWidth = 4\<close> every group requests 2
  words of 32 bits and yields 4 scalar results.
\<close>

theorem LoadOp_vector_width:
  assumes enc: "getEncoding resultTy = Blocked blockedLayout"
    and res: "LoadOp_matchAndRewrite resultTy nbits splat ptrs masks others = Inr groups"
    and fit: "nbits * (getSizePerThread blockedLayout ! (getOrder blockedLayout ! 0)) < 2 ^ 31"
  shows "(let vecWidth = getSizePerThread blockedLayout ! (getOrder blockedLayout ! 0);
              width = min (max 32 nbits) (nbits * vecWidth) in
          LoadOp_vecWidth blockedLayout = Inr vecWidth
        \<and> (\<forall>g\<in>set groups.
              asm_word_width g = int width
            \<and> asm_ret_words g = int (max 1 (nbits * vecWidth div width))
            \<and> length (loaded g) = vecWidth)
        \<and> loaded_positions vecWidth (width div nbits) groups = [0..<vecWidth * length groups]
        \<and> (nbits = 16 \<longrightarrow> vecWidth = 4 \<longrightarrow>
             (\<forall>g\<in>set groups. asm_ret_words g = 2 \<and> asm_word_width g = 32
                \<and> length (loaded g) = 4)))"
proof -
  let ?v = "getSizePerThread blockedLayout ! (getOrder blockedLayout ! 0)"
  let ?W = "min (max 32 nbits) (nbits * ?v)"
  from res enc obtain vecWidth numElems ptrVals maskVals otherVals n_words where
    v: "LoadOp_vecWidth blockedLayout = Inr vecWidth"
    and n: "LoadOp_n_words nbits vecWidth = Inr n_words"
    and l: "LoadOp_loop (LoadOp_group ptrVals maskVals otherVals splat nbits vecWidth
              (LoadOp_width nbits vecWidth) n_words) numElems vecWidth 0 = Inr groups"
    by (auto simp: LoadOp_matchAndRewrite_def ebind_eq_Inr)
  from v have ve: "vecWidth = ?v"
    by (auto simp: LoadOp_vecWidth_def ebind_eq_Inr at_index_def split: if_splits)
  have "\<not> (nbits = 0 \<or> vecWidth = 0)"
  proof
    assume "nbits = 0 \<or> vecWidth = 0"
    from LoadOp_n_words_zero [OF this] n show False by simp
  qed
  then have pos: "0 < nbits" "0 < ?v" by (simp_all add: ve)
  note w = LoadOp_widths [OF pos fit]
  from n w(4) have nw: "n_words = int (max 1 (nbits * ?v div ?W))" by (simp add: ve)
  have nbW: "nbits \<le> ?W" using pos by simp
  have "?W \<le> nbits * ?v" by simp
  also note fit
  finally have Wb: "?W < 2 ^ 31" .
  have g: "asm_word_width g = int ?W \<and> asm_ret_words g = int (max 1 (nbits * ?v div ?W))
           \<and> loaded g = map (\<lambda>ii. (ii div (?W div nbits), ii mod (?W div nbits))) [0..<?v]"
    if "g \<in> set groups" for g
  proof -
    from LoadOp_loop_all [OF l] that obtain k where
      "LoadOp_group ptrVals maskVals otherVals splat nbits ?v (int ?W) n_words k = Inr g"
      by (auto simp: ve w(3))
    note f = LoadOp_group_Inr [OF this]
    from LoadOp_loaded_Inr [OF pos(1) nbW Wb f(3)] f(1,2) nw show ?thesis by simp
  qed
  then have a: "\<forall>g\<in>set groups. asm_word_width g = int ?W
            \<and> asm_ret_words g = int (max 1 (nbits * ?v div ?W)) \<and> length (loaded g) = ?v"
    by simp
  from g have "\<forall>g\<in>set groups.
      loaded g = map (\<lambda>ii. (ii div (?W div nbits), ii mod (?W div nbits))) [0..<?v]" by simp
  from loaded_positions_in_order [OF this, of 0]
  have b: "loaded_positions ?v (?W div nbits) groups = [0..<?v * length groups]"
    by (simp add: loaded_positions_def)
  have c: "\<forall>g\<in>set groups. asm_ret_words g = 2 \<and> asm_word_width g = 32 \<and> length (loaded g) = 4"
    if "nbits = 16" "?v = 4"
    using a that by simp
  from v ve a b c show ?thesis unfolding Let_def by blast
qed

theorem LoadOp_vector_width_witness:
  "LoadOp_vecWidth \<lparr>getSizePerThread = [1, 4], getThreadsPerWarp = [4, 8],
        getWarpsPerCTA = [1, 1], getOrder = [1, 0]\<rparr> = Inr 4
   \<and> (\<exists>groups. LoadOp_matchAndRewrite
          \<lparr>getShape = [4, 64], getElementType = ''f16'',
           getEncoding = Blocked \<lparr>getSizePerThread = [1, 4], getThreadsPerWarp = [4, 8],
             getWarpsPerCTA = [1, 1], getOrder = [1, 0]\<rparr>\<rparr> 16 False
          (Struct (map Scalar ''pqrstuvw'')) (Struct (map Scalar ''mmmmmmmm''))
          (Struct (map Scalar ''abcdefgh'')) = Inr groups
        \<and> map asm_ret_words groups = [2, 2]
        \<and> map asm_word_width groups = [32, 32]
        \<and> loaded_positions 4 2 groups = [0, 1, 2, 3, 4, 5, 6, 7])"
proof -
  let ?L = "\<lparr>getSizePerThread = [1, 4], getThreadsPerWarp = [4, 8],
        getWarpsPerCTA = [1, 1], getOrder = [1::nat, 0]\<rparr>"
  let ?ty = "\<lparr>getShape = [4, 64], getElementType = ''f16'', getEncoding = Blocked ?L\<rparr>"
  let ?groups = "[\<lparr>asm_ptr = Scalar CHR ''p'', asm_pred = Scalar CHR ''m'', asm_ret_words = 2,
         asm_word_width = 32,
         asm_others = [[Scalar CHR ''a'', Scalar CHR ''b''], [Scalar CHR ''c'', Scalar CHR ''d'']],
         loaded = [(0, 0), (0, 1), (1, 0), (1, 1)]\<rparr>,
      \<lparr>asm_ptr = Scalar CHR ''t'', asm_pred = Scalar CHR ''m'', asm_ret_words = 2,
         asm_word_width = 32,
         asm_others = [[Scalar CHR ''e'', Scalar CHR ''f''], [Scalar CHR ''g'', Scalar CHR ''h'']],
         loaded = [(0, 0), (0, 1), (1, 0), (1, 1)]\<rparr>]"
  have e: "getEncoding ?ty = Blocked ?L" by simp
  have r: "LoadOp_matchAndRewrite ?ty 16 False
          (Struct (map Scalar ''pqrstuvw'')) (Struct (map Scalar ''mmmmmmmm''))
          (Struct (map Scalar ''abcdefgh'')) = Inr ?groups"
    by code_simp
  have fit: "16 * (getSizePerThread ?L ! (getOrder ?L ! 0)) < 2 ^ 31" by simp
  have s: "getSizePerThread ?L ! (getOrder ?L ! 0) = 4" by simp
  have m: "min (max 32 16) (16 * 4) = (32::nat)" "32 div 16 = (2::nat)" by simp_all
  note t = LoadOp_vector_width [OF e r fit, unfolded Let_def s m]
  from t have v: "LoadOp_vecWidth ?L = Inr 4" by blast
  from t have "loaded_positions 4 2 ?groups = [0..<4 * length ?groups]" by blast
  then have p: "loaded_positions 4 2 ?groups = [0, 1, 2, 3, 4, 5, 6, 7]"
    by (simp add: upt_rec)
  from v r p show ?thesis by simp
qed

text \<open>
  The lowering of 16-bit elements with \<open>vecWidth = 4\<close> succeeds whenever the lane has a
  multiple of 4 elements and the three operand aggregates have one field for each:
  it emits one group for every 4 elements.
\<close>

lemma LoadOp_loop_succeeds:
  "0 < vecWidth \<Longrightarrow> (\<And>j. j < k \<Longrightarrow> \<exists>g. body (i + j * vecWidth) = Inr g) \<Longrightarrow>
   \<exists>gs. LoadOp_loop body (i + k * vecWidth) vecWidth i = Inr gs \<and> length gs = k"
proof (induction k arbitrary: i)
  case 0
  then show ?case by (subst LoadOp_loop.simps) simp
next
  case (Suc k)
  from Suc.prems(2) [of 0] obtain g where g: "body i = Inr g" by auto
  have "\<exists>g. body (i + vecWidth + j * vecWidth) = Inr g" if "j < k" for j
    using Suc.prems(2) [of "Suc j"] that by (simp add: add.assoc)
  from Suc.IH [OF Suc.prems(1) this] obtain gs where
    gs: "LoadOp_loop body (i + vecWidth + k * vecWidth) vecWidth (i + vecWidth) = Inr gs"
      "length gs = k" by blast
  have "i < i + Suc k * vecWidth" using Suc.prems(1) by simp
  with Suc.prems(1) g gs show ?case
    by (subst LoadOp_loop.simps) (simp add: add.assoc)
qed

lemma LoadOp_group_16_4_succeeds:
  assumes "i + 4 \<le> length ptrVals" "i + 4 \<le> length maskVals" "i + 4 \<le> length otherVals"
  shows "\<exists>g. LoadOp_group ptrVals maskVals otherVals splat 16 4 32 2 i = Inr g"
proof -
  have l: "LoadOp_loaded 16 4 32 2 = Inr [(0, 0), (0, 1), (1, 0), (1, 1)]" by code_simp
  have u: "int_to_unsigned 32 = 32" "int_to_size_t 2 = 2"
    by (simp_all add: int_to_unsigned_def int_to_size_t_def)
  have "emap (\<lambda>s. at_index otherVals (i + ii * 2 + s)) [0..<2]
          = Inr (map (\<lambda>s. otherVals ! (i + ii * 2 + s)) [0..<2])" if "ii < 2" for ii
    using assms(3) that by (intro emap_eq_map) simp
  then have "emap (\<lambda>ii. ebind (udiv 32 16)
                 (\<lambda>size. emap (\<lambda>s. at_index otherVals (i + ii * size + s)) [0..<size])) [0..<2]
        = Inr (map (\<lambda>ii. map (\<lambda>s. otherVals ! (i + ii * 2 + s)) [0..<2]) [0..<2])"
    by (intro emap_eq_map) simp
  then have "\<exists>os. LoadOp_others otherVals 16 32 2 i = Inr os"
    by (simp add: LoadOp_others_def u)
  with assms(1,2) l show ?thesis by (auto simp: LoadOp_group_def)
qed

lemma LoadOp_16_4_succeeds:
  assumes enc: "getEncoding resultTy = Blocked blockedLayout"
    and v: "LoadOp_vecWidth blockedLayout = Inr 4"
    and ne: "getElemsPerThread blockedLayout (getShape resultTy) = Inr (4 * k)"
    and len: "length ps = 4 * k" "length ms = 4 * k" "length os = 4 * k"
  shows "\<exists>groups. LoadOp_matchAndRewrite resultTy 16 splat (Struct ps) (Struct ms) (Struct os)
                    = Inr groups \<and> length groups = k"
proof -
  have w: "LoadOp_width 16 4 = 32" "LoadOp_n_words 16 4 = Inr 2"
    using LoadOp_widths(3,4) [of 16 4] by simp_all
  have u: "getElementsFromStruct (Struct xs) (4 * k) = Inr xs" if "length xs = 4 * k"
    for xs :: "'b llvm_val list"
    using that by (simp add: getElementsFromStruct_eq)
  have "\<exists>g. LoadOp_group ps ms os splat 16 4 32 2 (0 + j * 4) = Inr g" if "j < k" for j
    using that len by (intro LoadOp_group_16_4_succeeds) simp_all
  with LoadOp_loop_succeeds [of 4 k "LoadOp_group ps ms os splat 16 4 32 2" 0]
  obtain gs where "LoadOp_loop (LoadOp_group ps ms os splat 16 4 32 2) (4 * k) 4 0 = Inr gs"
    "length gs = k" by (auto simp: mult.commute)
  then show ?thesis
    by (simp add: LoadOp_matchAndRewrite_def enc v ne u len w)
qed

subsection \<open>Coverage of the tensor by the lanes\<close>

text \<open>
  C1 does not hold of the code. The layout \<open>sizePerThread = [1, 1]\<close>,
  \<open>threadsPerWarp = [4, 8]\<close>, \<open>warpsPerCTA = [1, 1]\<close>, \<open>order = [1, 0]\<close> and the shape
  \<open>[4, 8]\<close> satisfy the divisibility invariant, and lane 16 of the warp is given the
  single index \<open>[4, 0]\<close>, which is not an index of the tensor: \<open>delinearize\<close> with an
  order decomposes the lane number against the reordered sizes \<open>[8, 4]\<close> and returns the
  coordinates in the reordered positions, and step 1 uses them as the coordinates of
  the dimensions \<open>0\<close> and \<open>1\<close>. The 32 lanes together produce the rows \<open>0..7\<close> of the
  columns \<open>0..3\<close>, so that the index \<open>[0, 4]\<close> of the tensor belongs to no lane.
\<close>

theorem emitIndices_outside_tensor:
  "divisible \<lparr>getSizePerThread = [1, 1], getThreadsPerWarp = [4, 8], getWarpsPerCTA = [1, 1],
      getOrder = [1, 0]\<rparr> [4, 8]
   \<and> emitIndicesForBlockedLayout
       \<lparr>getSizePerThread = [1, 1], getThreadsPerWarp = [4, 8], getWarpsPerCTA = [1, 1],
        getOrder = [1, 0]\<rparr> [4, 8] 16 = Inr [[4, 0]]
   \<and> \<not> valid_index [4, 0] [4, 8]
   \<and> valid_index [0, 4] [4, 8]
   \<and> [[0, 4]] \<notin> set (map (\<lambda>threadId. case emitIndicesForBlockedLayout
         \<lparr>getSizePerThread = [1, 1], getThreadsPerWarp = [4, 8], getWarpsPerCTA = [1, 1],
          getOrder = [1, 0]\<rparr> [4, 8] threadId of Inl e \<Rightarrow> [] | Inr idxs \<Rightarrow> idxs) [0..<32])"
  by code_simp

text \<open>
  A second defect of the same function, with the identity order: for the shape
  \<open>[8, 8]\<close> every lane owns two tiles, one per half of dimension 0. Step 3 decomposes
  the tile number against \<open>threadsPerDim = shape / sizePerThread = [8, 8]\<close> and not
  against the numbers of tiles \<open>[2, 1]\<close>, so that tile 1 becomes \<open>[0, 1]\<close> and the
  subscript of \<open>offset[1]\<close>, a vector of 8 entries, is 8.
\<close>

lemma emitIndices_tile_out_of_bounds:
  "divisible \<lparr>getSizePerThread = [1, 1], getThreadsPerWarp = [4, 8], getWarpsPerCTA = [1, 1],
      getOrder = [0, 1]\<rparr> [8, 8]
   \<and> emitIndicesForBlockedLayout
       \<lparr>getSizePerThread = [1, 1], getThreadsPerWarp = [4, 8], getWarpsPerCTA = [1, 1],
        getOrder = [0, 1]\<rparr> [8, 8] 0 = Inl IndexOutOfBounds"
  by code_simp

subsection \<open>Successful results of the checked operations\<close>

lemma udiv_eq_Inr: "udiv a b = Inr q \<longleftrightarrow> b \<noteq> 0 \<and> q = a div b"
  by (auto simp: udiv_def)

lemma urem_eq_Inr: "urem a b = Inr r \<longleftrightarrow> b \<noteq> 0 \<and> r = a mod b"
  by (auto simp: urem_def)

lemma at_index_eq_Inr: "at_index xs i = Inr x \<longleftrightarrow> i < length xs \<and> x = xs ! i"
  by (auto simp: at_index_def)

lemma set_index_eq_Inr: "set_index xs i v = Inr ys \<longleftrightarrow> i < length xs \<and> ys = xs[i := v]"
  by (auto simp: set_index_def)

subsection \<open>Consecutive linear indices\<close>

lemma getMultiDimIndex_loop_Inr:
  "getMultiDimIndex_loop r (prod_list ss) (s # ss) = Inr idx \<Longrightarrow>
   idx = row_major_index r (s # ss) \<and> (\<forall>x\<in>set ss. 0 < x)"
proof (induction ss arbitrary: r s idx)
  case Nil
  then show ?case by simp
next
  case (Cons a ss)
  from Cons.prems have nz: "a \<noteq> 0" "prod_list ss \<noteq> 0"
    by (auto split: if_splits)
  with Cons.prems obtain rest where
    rest: "getMultiDimIndex_loop (r mod (a * prod_list ss)) (prod_list ss) (a # ss) = Inr rest"
      "idx = r div (a * prod_list ss) # rest"
    by (auto split: if_splits sum.splits)
  from Cons.IH [OF rest(1)] rest(2) nz show ?case by simp
qed

lemma getMultiDimIndex_Inr:
  "getMultiDimIndex l shape = Inr idx \<Longrightarrow>
   idx = row_major_index l shape \<and> (\<forall>x\<in>set (drop 1 shape). 0 < x)"
  by (cases shape) (auto simp: getMultiDimIndex_def acc_mul_init_Cons dest: getMultiDimIndex_loop_Inr)

lemma row_major_linear_update:
  "p < length S \<Longrightarrow> length e = length S \<Longrightarrow>
   row_major_linear (e[p := v]) S + e ! p * prod_list (drop (Suc p) S)
     = row_major_linear e S + v * prod_list (drop (Suc p) S)"
proof (induction S arbitrary: p e)
  case Nil
  then show ?case by simp
next
  case (Cons s ss)
  then obtain m ms where e: "e = m # ms" by (cases e) auto
  show ?case
  proof (cases p)
    case 0
    with e show ?thesis by simp
  next
    case (Suc q)
    with Cons.prems e have "row_major_linear (ms[q := v]) ss + ms ! q * prod_list (drop (Suc q) ss)
       = row_major_linear ms ss + v * prod_list (drop (Suc q) ss)"
      by (intro Cons.IH) simp_all
    with Suc e show ?thesis by simp
  qed
qed

lemma consecutive_row_major_index:
  assumes pos: "\<forall>x\<in>set (drop 1 S). 0 < x"
    and p: "p < length S"
    and agree: "\<forall>k<length S. k \<noteq> p \<longrightarrow> row_major_index m S ! k = row_major_index (Suc m) S ! k"
  shows "row_major_index (Suc m) S ! p = row_major_index m S ! p + 1"
proof -
  let ?e = "row_major_index m S" and ?e' = "row_major_index (Suc m) S"
  let ?W = "prod_list (drop (Suc p) S)"
  from p obtain s ss where S: "S = s # ss" by (cases S) auto
  with pos have ss: "\<forall>x\<in>set ss. 0 < x" by simp
  have l: "row_major_linear ?e S = m" "row_major_linear ?e' S = Suc m"
    using ss unfolding S by (simp_all only: row_major_roundtrip)
  have "?e' = ?e[p := ?e' ! p]"
    using agree p by (auto simp: list_eq_iff_nth_eq nth_list_update)
  then have "row_major_linear ?e' S + ?e ! p * ?W = row_major_linear ?e S + ?e' ! p * ?W"
    using row_major_linear_update [of p S ?e "?e' ! p"] p by simp
  with l have "?e' ! p * ?W = ?e ! p * ?W + 1" by simp
  then have "(?e' ! p - ?e ! p) * ?W = 1"
    by (simp add: diff_mult_distrib)
  then have "?e' ! p - ?e ! p = 1" by simp
  then show ?thesis by simp
qed

subsection \<open>The offsets of a dimension\<close>


lemma concat_blocks:
  "concat (map (\<lambda>i. [c + i * m..<c + i * m + m]) [0..<n]) = [c..<c + n * m]"
proof (induction n)
  case 0
  then show ?case by simp
next
  case (Suc n)
  have "[c..<c + Suc n * m] = [c..<(c + n * m) + m]" by (simp add: add.commute add.left_commute)
  also have "\<dots> = [c..<c + n * m] @ [c + n * m..<c + n * m + m]"
    by (rule upt_add_eq_append) simp
  finally show ?case using Suc by simp
qed

lemma map_add_block: "map (\<lambda>e. c + e) [0..<p] = [c..<c + p]"
  using map_add_upt [of c p] by (simp add: add.commute)

lemma offsets_of_dim_eq:
  "offsets_of_dim numBlocks p t w = [0..<numBlocks * (w * (t * p))]"
proof -
  have inner: "map (\<lambda>e. b * p * t * w + wo * p * t + to * p + e) [0..<p]
      = [(b * p * t * w + wo * p * t) + to * p..<(b * p * t * w + wo * p * t) + to * p + p]" for b wo to
    by (rule map_add_block)
  have l3: "concat (map (\<lambda>to. map (\<lambda>e. b * p * t * w + wo * p * t + to * p + e) [0..<p]) [0..<t])
      = [b * p * t * w + wo * (t * p)..<b * p * t * w + wo * (t * p) + t * p]" for b wo
    unfolding inner concat_blocks by (simp add: ac_simps)
  have l2: "concat (map (\<lambda>wo. concat (map (\<lambda>to. map (\<lambda>e. b * p * t * w + wo * p * t + to * p + e)
        [0..<p]) [0..<t])) [0..<w])
      = [0 + b * (w * (t * p))..<0 + b * (w * (t * p)) + w * (t * p)]" for b
    unfolding l3 concat_blocks by (simp add: ac_simps)
  show ?thesis
    unfolding offsets_of_dim_def l2 concat_blocks by simp
qed

subsection \<open>Adjacency in the per-lane sequence\<close>

lemma emitIndices_offset_Inr:
  assumes "emitIndices_offset L shape k = Inr (m, offs)"
  shows "\<exists>N. offs = [0..<N]"
  using assms
  by (auto simp: emitIndices_offset_def ebind_eq_Inr offsets_of_dim_eq)

lemma emitIndices_elem_Inr:
  assumes r: "emitIndices_elem L rank base offset accum tpd n = Inr v"
    and offs: "\<forall>k<length offset. \<exists>N. offset ! k = [0..<N]"
  shows "\<exists>tile elem.
           getMultiDimIndex (n div accum) tpd = Inr tile \<and>
           getMultiDimIndex (n mod accum) (getSizePerThread L) = Inr elem \<and>
           length v = rank \<and>
           (\<forall>k<rank. k < length elem \<and>
                     v ! k = base ! k + (tile ! k * tile_size L k + elem ! k))"
proof -
  from r obtain tile elem where
    t: "getMultiDimIndex (n div accum) tpd = Inr tile"
    and e: "getMultiDimIndex (n mod accum) (getSizePerThread L) = Inr elem"
    and m: "emap (\<lambda>k.
               ebind (at_index tile k) (\<lambda>tile.
               ebind (at_index (getSizePerThread L) k) (\<lambda>sizePerThreadK.
               ebind (at_index (getThreadsPerWarp L) k) (\<lambda>threadsPerWarpK.
               ebind (at_index (getWarpsPerCTA L) k) (\<lambda>warpsPerCTAK.
               ebind (at_index elem k) (\<lambda>elem.
               ebind (at_index base k) (\<lambda>base.
               ebind (at_index offset k) (\<lambda>offsetK.
               ebind (at_index offsetK
                        (tile * (sizePerThreadK * threadsPerWarpK * warpsPerCTAK) + elem))
                 (\<lambda>off. Inr (base + off))))))))))
          [0..<rank] = Inr v"
    by (auto simp: emitIndices_elem_def Let_def ebind_eq_Inr udiv_eq_Inr urem_eq_Inr)
  from emap_Inr_nth [OF m] have len: "length v = rank"
    and each: "\<forall>k<rank. ebind (at_index tile k) (\<lambda>tile.
               ebind (at_index (getSizePerThread L) k) (\<lambda>sizePerThreadK.
               ebind (at_index (getThreadsPerWarp L) k) (\<lambda>threadsPerWarpK.
               ebind (at_index (getWarpsPerCTA L) k) (\<lambda>warpsPerCTAK.
               ebind (at_index elem k) (\<lambda>elem.
               ebind (at_index base k) (\<lambda>base.
               ebind (at_index offset k) (\<lambda>offsetK.
               ebind (at_index offsetK
                        (tile * (sizePerThreadK * threadsPerWarpK * warpsPerCTAK) + elem))
                 (\<lambda>off. Inr (base + off))))))))) = Inr (v ! k)"
    by simp_all
  have "k < length elem \<and> v ! k = base ! k + (tile ! k * tile_size L k + elem ! k)"
    if k: "k < rank" for k
  proof -
    from each k have j: "k < length offset"
      "tile ! k * tile_size L k + elem ! k < length (offset ! k)"
      "v ! k = base ! k + offset ! k ! (tile ! k * tile_size L k + elem ! k)"
      "k < length elem"
      by (auto simp: ebind_eq_Inr at_index_eq_Inr tile_size_def)
    from offs j(1) obtain N where "offset ! k = [0..<N]" by blast
    with j(2,3,4) show ?thesis by simp
  qed
  with t e len show ?thesis by blast
qed

lemma emitIndices_Inr:
  assumes r: "emitIndicesForBlockedLayout L shape tid = Inr idxs"
  shows "\<exists>base tpd. \<forall>n<length idxs. \<exists>tile elem.
           getMultiDimIndex (n div prod_list (getSizePerThread L)) tpd = Inr tile \<and>
           getMultiDimIndex (n mod prod_list (getSizePerThread L)) (getSizePerThread L) = Inr elem \<and>
           length (idxs ! n) = length shape \<and>
           (\<forall>k<length shape. k < length elem \<and>
              idxs ! n ! k = base ! k + (tile ! k * tile_size L k + elem ! k))"
proof -
  from r obtain base perDim tpd where
    o: "emap (emitIndices_offset L shape) [0..<length shape] = Inr perDim"
    and m: "emap (emitIndices_elem L (length shape) base (map snd perDim)
                    (prod_list (getSizePerThread L)) tpd)
              [0..<fold (\<lambda>(m, offs) e. e * m) perDim 1] = Inr idxs"
    by (auto simp: emitIndicesForBlockedLayout_def Let_def ebind_eq_Inr fold_mult_prod)
  have po: "\<exists>N. map snd perDim ! k = [0..<N]" if "k < length (map snd perDim)" for k
  proof -
    from emap_Inr_nth [OF o] that
    have "emitIndices_offset L shape k = Inr (fst (perDim ! k), snd (perDim ! k))" by simp
    from emitIndices_offset_Inr [OF this] that show ?thesis by simp
  qed
  have "\<exists>tile elem.
           getMultiDimIndex (n div prod_list (getSizePerThread L)) tpd = Inr tile \<and>
           getMultiDimIndex (n mod prod_list (getSizePerThread L)) (getSizePerThread L) = Inr elem \<and>
           length (idxs ! n) = length shape \<and>
           (\<forall>k<length shape. k < length elem \<and>
              idxs ! n ! k = base ! k + (tile ! k * tile_size L k + elem ! k))"
    if "n < length idxs" for n
  proof -
    from emap_Inr_nth [OF m] that
    have "emitIndices_elem L (length shape) base (map snd perDim)
            (prod_list (getSizePerThread L)) tpd n = Inr (idxs ! n)"
      by simp
    from emitIndices_elem_Inr [OF this] po show ?thesis by blast
  qed
  then show ?thesis by blast
qed

text \<open>
  In the sequence of indices that \<open>emitIndicesForBlockedLayout\<close> produces for a lane,
  let the entries \<open>n\<close> and \<open>n + 1\<close> lie in the same repetition tile
  (\<open>n / accumSizePerThread\<close> is the same) and let their within-run coordinates, the
  decompositions of \<open>n % accumSizePerThread\<close> against \<open>sizePerThread\<close>, differ in the
  position \<open>p\<close> only. Then entry \<open>n + 1\<close> is entry \<open>n\<close> with coordinate \<open>p\<close> increased by
  exactly 1. The decomposition is row-major in the dimensions themselves and does not
  read \<open>order\<close>: for consecutive entries \<open>p\<close> is the last dimension of the tensor.
\<close>

lemma emitIndices_adjacent_position:
  assumes res: "emitIndicesForBlockedLayout L shape threadId = Inr idxs"
    and rank: "length (getSizePerThread L) = length shape"
    and n: "Suc n < length idxs"
    and tile: "n div prod_list (getSizePerThread L) = Suc n div prod_list (getSizePerThread L)"
    and run: "getMultiDimIndex (n mod prod_list (getSizePerThread L)) (getSizePerThread L) = Inr run"
    and run': "getMultiDimIndex (Suc n mod prod_list (getSizePerThread L)) (getSizePerThread L) = Inr run'"
    and p: "p < length shape"
    and agree: "\<forall>k<length shape. k \<noteq> p \<longrightarrow> run ! k = run' ! k"
  shows "idxs ! Suc n = (idxs ! n)[p := idxs ! n ! p + 1]"
proof -
  let ?S = "getSizePerThread L"
  let ?P = "prod_list ?S"
  from emitIndices_Inr [OF res] obtain base tpd where
    all: "\<forall>n<length idxs. \<exists>tile elem.
           getMultiDimIndex (n div ?P) tpd = Inr tile \<and>
           getMultiDimIndex (n mod ?P) ?S = Inr elem \<and>
           length (idxs ! n) = length shape \<and>
           (\<forall>k<length shape. k < length elem \<and>
              idxs ! n ! k = base ! k + (tile ! k * tile_size L k + elem ! k))"
    by blast
  from all n run obtain tile where
    a: "getMultiDimIndex (n div ?P) tpd = Inr tile" "length (idxs ! n) = length shape"
       "\<forall>k<length shape. idxs ! n ! k = base ! k + (tile ! k * tile_size L k + run ! k)"
    by (metis Suc_lessD Inr_inject)
  from all n run' tile a(1) have
    b: "length (idxs ! Suc n) = length shape"
       "\<forall>k<length shape. idxs ! Suc n ! k = base ! k + (tile ! k * tile_size L k + run' ! k)"
    by (metis Inr_inject)+
  have m: "Suc n mod ?P = Suc (n mod ?P)"
  proof -
    have "Suc n = Suc n div ?P * ?P + Suc n mod ?P" by simp
    moreover have "n = n div ?P * ?P + n mod ?P" by simp
    ultimately show ?thesis using tile by (metis Suc_eq_plus1 add.assoc add_left_cancel)
  qed
  from getMultiDimIndex_Inr [OF run] have r: "run = row_major_index (n mod ?P) ?S"
    and pos: "\<forall>x\<in>set (drop 1 ?S). 0 < x" by simp_all
  from getMultiDimIndex_Inr [OF run'] m have r': "run' = row_major_index (Suc (n mod ?P)) ?S"
    by simp
  have "run' ! p = run ! p + 1"
    unfolding r r'
    using pos p agree rank by (intro consecutive_row_major_index) (simp_all add: r r')
  with a b agree p show ?thesis
    by (auto simp: list_eq_iff_nth_eq nth_list_update)
qed

lemma emitIndices_adjacent_position_example:
  "emitIndicesForBlockedLayout
     \<lparr>getSizePerThread = [2, 2], getThreadsPerWarp = [4, 8], getWarpsPerCTA = [1, 1],
      getOrder = [0, 1]\<rparr> [8, 32] 9
     = Inr [[2, 2], [2, 3], [3, 2], [3, 3], [2, 18], [2, 19], [3, 18], [3, 19]]
   \<and> [[2, 2], [2, 3], [3, 2], [3, 3], [2, 18], [2, 19], [3, 18], [3, 19]] ! Suc 0
       = ([[2, 2], [2, 3], [3, 2], [3, 3], [2, 18], [2, 19], [3, 18], [3, 19::nat]] ! 0)[1 := 2 + 1]"
proof -
  let ?L = "\<lparr>getSizePerThread = [2, 2], getThreadsPerWarp = [4, 8], getWarpsPerCTA = [1, 1],
      getOrder = [0::nat, 1]\<rparr>"
  let ?idxs = "[[2, 2], [2, 3], [3, 2], [3, 3], [2, 18], [2, 19], [3, 18], [3, 19::nat]]"
  have res: "emitIndicesForBlockedLayout ?L [8, 32] 9 = Inr ?idxs" by code_simp
  have rank: "length (getSizePerThread ?L) = length [8, 32::nat]" by simp
  have n: "Suc 0 < length ?idxs" by simp
  have tile: "0 div prod_list (getSizePerThread ?L) = Suc 0 div prod_list (getSizePerThread ?L)"
    by simp
  have run: "getMultiDimIndex (0 mod prod_list (getSizePerThread ?L)) (getSizePerThread ?L)
               = Inr [0, 0]" by code_simp
  have run': "getMultiDimIndex (Suc 0 mod prod_list (getSizePerThread ?L)) (getSizePerThread ?L)
               = Inr [0, 1]" by code_simp
  have p: "1 < length [8, 32::nat]" by simp
  have agree: "\<forall>k<length [8, 32::nat]. k \<noteq> 1 \<longrightarrow> [0, 0::nat] ! k = [0, 1] ! k"
    by (simp add: less_Suc_eq)
  from emitIndices_adjacent_position [OF res rank n tile run run' p agree]
  have "?idxs ! Suc 0 = (?idxs ! 0)[1 := ?idxs ! 0 ! 1 + 1]" .
  with res show ?thesis by simp
qed

text \<open>
  C2. The fastest-varying dimension of a layout is \<open>order[0]\<close>, and the load takes
  \<open>sizePerThread[order[0]]\<close> consecutive entries of the sequence as one vector. For
  \<open>order = [0, 1]\<close>, \<open>sizePerThread = [2, 2]\<close>, \<open>threadsPerWarp = [4, 8]\<close>,
  \<open>warpsPerCTA = [1, 1]\<close> and the shape \<open>[8, 32]\<close>, which satisfies the divisibility
  invariant, the sequence of lane 9 begins \<open>[2,2], [2,3], [3,2], [3,3]\<close>: the entries 0
  and 1 lie in the same repetition tile and in the same run of the lane, and differ
  by 1 in dimension 1, not in the fastest-varying dimension 0, in which they are
  equal; the two elements that the lane owns contiguously along dimension 0, \<open>[2,2]\<close>
  and \<open>[3,2]\<close>, are the entries 0 and 2 and are not adjacent. Step 3 announces a
  reordering of the sequence that makes the elements of one \<open>sizePerThread\<close> adjacent,
  but enumerates the run without reading \<open>order\<close>.
\<close>

theorem emitIndices_not_adjacent_in_order:
  "divisible \<lparr>getSizePerThread = [2, 2], getThreadsPerWarp = [4, 8], getWarpsPerCTA = [1, 1],
      getOrder = [0, 1]\<rparr> [8, 32]
   \<and> getOrder \<lparr>getSizePerThread = [2, 2], getThreadsPerWarp = [4, 8], getWarpsPerCTA = [1, 1],
      getOrder = [0, 1]\<rparr> ! 0 = 0
   \<and> LoadOp_vecWidth \<lparr>getSizePerThread = [2, 2], getThreadsPerWarp = [4, 8],
      getWarpsPerCTA = [1, 1], getOrder = [0, 1]\<rparr> = Inr 2
   \<and> emitIndicesForBlockedLayout
     \<lparr>getSizePerThread = [2, 2], getThreadsPerWarp = [4, 8], getWarpsPerCTA = [1, 1],
      getOrder = [0, 1]\<rparr> [8, 32] 9
     = Inr [[2, 2], [2, 3], [3, 2], [3, 3], [2, 18], [2, 19], [3, 18], [3, 19]]"
  by code_simp

subsection \<open>Broadcast: the logical shapes\<close>




subsection \<open>Broadcast without broadcast dimensions\<close>





subsection \<open>The broadcast of a source of extent 1\<close>

text \<open>
  The example of the specification: the source shape \<open>[4, 1]\<close> is broadcast to \<open>[4, 3]\<close>
  with \<open>sizePerThread = [1, 1]\<close>, \<open>threadsPerWarp = [4, 1]\<close>, \<open>warpsPerCTA = [1, 1]\<close>; the
  single source value \<open>v\<close> of a lane becomes its three result values.
\<close>

lemma BroadcastOp_example:
  "BroadcastOp_matchAndRewrite (\<lambda>e. e)
     \<lparr>getShape = [4, 1], getElementType = ''f32'',
      getEncoding = Blocked \<lparr>getSizePerThread = [1, 1], getThreadsPerWarp = [4, 1],
        getWarpsPerCTA = [1, 1], getOrder = [1, 0]\<rparr>\<rparr>
     \<lparr>getShape = [4, 3], getElementType = ''f32'',
      getEncoding = Blocked \<lparr>getSizePerThread = [1, 1], getThreadsPerWarp = [4, 1],
        getWarpsPerCTA = [1, 1], getOrder = [1, 0]\<rparr>\<rparr>
     (Struct [Scalar ''v''])
   = Inr (Struct [Scalar ''v'', Scalar ''v'', Scalar ''v''])"
  by code_simp

text \<open>
  C3. The lowering does not do this for every broadcast with a common blocked layout
  and source extent 1 in the broadcast dimension. With \<open>sizePerThread = [1, 2]\<close>,
  \<open>threadsPerWarp = [4, 1]\<close>, \<open>warpsPerCTA = [1, 1]\<close> and the source shape \<open>[4, 1]\<close>
  broadcast to \<open>[4, 4]\<close>, a lane holds one source value \<open>v\<close> and four result values,
  which should all be \<open>v\<close>. The loop over \<open>j\<close> runs over the whole result extent 4 of
  dimension 1 (\<^verbatim>\<open>broadcastSizes\<close> holds \<^verbatim>\<open>resultShape[d]\<close>) and writes \<open>j\<close> into the
  tile coordinate of the logical index only, whose logical extent is 2: the copies
  go to the slots 0, 2 and then 4 of a result of 4 slots, and the lowering aborts.
  With lanes along the broadcast dimension (\<open>sizePerThread = [1, 1]\<close>,
  \<open>threadsPerWarp = [4, 8]\<close>, \<open>[4, 1]\<close> broadcast to \<open>[4, 8]\<close>) \<open>getElemsPerThread\<close> of the
  source is \<open>(4 / 4) * (1 / 8) = 0\<close>: no slot of the result is assigned, and packing the
  result meets a null handle.
\<close>

theorem BroadcastOp_fails:
  "getElemsPerThread \<lparr>getSizePerThread = [1, 2], getThreadsPerWarp = [4, 1],
      getWarpsPerCTA = [1, 1], getOrder = [1, 0]\<rparr> [4, 1] = Inr 1
   \<and> getElemsPerThread \<lparr>getSizePerThread = [1, 2], getThreadsPerWarp = [4, 1],
      getWarpsPerCTA = [1, 1], getOrder = [1, 0]\<rparr> [4, 4] = Inr 4
   \<and> BroadcastOp_matchAndRewrite (\<lambda>e. e)
     \<lparr>getShape = [4, 1], getElementType = ''f32'',
      getEncoding = Blocked \<lparr>getSizePerThread = [1, 2], getThreadsPerWarp = [4, 1],
        getWarpsPerCTA = [1, 1], getOrder = [1, 0]\<rparr>\<rparr>
     \<lparr>getShape = [4, 4], getElementType = ''f32'',
      getEncoding = Blocked \<lparr>getSizePerThread = [1, 2], getThreadsPerWarp = [4, 1],
        getWarpsPerCTA = [1, 1], getOrder = [1, 0]\<rparr>\<rparr>
     (Struct [Scalar ''v'']) = Inl IndexOutOfBounds
   \<and> BroadcastOp_matchAndRewrite (\<lambda>e. e)
     \<lparr>getShape = [4, 1], getElementType = ''f32'',
      getEncoding = Blocked \<lparr>getSizePerThread = [1, 1], getThreadsPerWarp = [4, 8],
        getWarpsPerCTA = [1, 1], getOrder = [1, 0]\<rparr>\<rparr>
     \<lparr>getShape = [4, 8], getElementType = ''f32'',
      getEncoding = Blocked \<lparr>getSizePerThread = [1, 1], getThreadsPerWarp = [4, 8],
        getWarpsPerCTA = [1, 1], getOrder = [1, 0]\<rparr>\<rparr>
     (Struct [] :: string llvm_val) = Inl NullValue"
  by code_simp

subsection \<open>The identity broadcast below one tile\<close>

text \<open>
  The bound on the extents in C10 is needed: with an extent below one tile (\<open>2 < 4\<close> in
  dimension 1) the logical shape is \<open>[1, 0, 1, 4]\<close> and \<open>getMultiDimIndex\<close> divides by zero.
\<close>

lemma BroadcastOp_below_one_tile:
  "BroadcastOp_matchAndRewrite (\<lambda>e. e)
     \<lparr>getShape = [4, 2], getElementType = ''f32'',
      getEncoding = Blocked \<lparr>getSizePerThread = [1, 4], getThreadsPerWarp = [4, 1],
        getWarpsPerCTA = [1, 1], getOrder = [1, 0]\<rparr>\<rparr>
     \<lparr>getShape = [4, 2], getElementType = ''f32'',
      getEncoding = Blocked \<lparr>getSizePerThread = [1, 4], getThreadsPerWarp = [4, 1],
        getWarpsPerCTA = [1, 1], getOrder = [1, 0]\<rparr>\<rparr>
     (Struct [Scalar ''a'', Scalar ''b'']) = Inl DivisionByZero"
  by code_simp

end
